theory Spec2Isabelle
  imports Main "HOL-Library.Word"
begin

unbundle bit_operations_syntax

section \<open>Package static: hashed static asset URLs\<close>

text \<open>
  The development embeds the Go package \<^verbatim>\<open>static\<close> (file \<^verbatim>\<open>static.go\<close>, and its
  earlier cache-less variant kept beside it) and the library functions it calls.
  Go strings and byte slices are byte sequences, so both are \<^typ>\<open>char list\<close>
  (an Isabelle \<^typ>\<open>char\<close> is one byte).
\<close>

type_synonym bytes = string

subsection \<open>Package strings\<close>

text \<open>\<^verbatim>\<open>strings.HasPrefix(s, prefix)\<close>.\<close>

definition strings_HasPrefix :: "string \<Rightarrow> string \<Rightarrow> bool" where
  "strings_HasPrefix s prefix = (length prefix \<le> length s \<and> take (length prefix) s = prefix)"

text \<open>
  \<^verbatim>\<open>strings.Split(s, sep)\<close> for a one-byte separator (the package only splits on
  \<^verbatim>\<open>"/"\<close>): the pieces between the separators; always at least one piece.
\<close>

fun strings_Split :: "string \<Rightarrow> char \<Rightarrow> string list" where
  "strings_Split [] sep = [[]]"
| "strings_Split (c # s) sep =
     (if c = sep then [] # strings_Split s sep
      else (case strings_Split s sep of
              [] \<Rightarrow> [[c]]
            | p # ps \<Rightarrow> (c # p) # ps))"

text \<open>\<^verbatim>\<open>strings.Join(elems, sep)\<close>.\<close>

fun strings_Join :: "string list \<Rightarrow> string \<Rightarrow> string" where
  "strings_Join [] sep = []"
| "strings_Join [e] sep = e"
| "strings_Join (e # e' # es) sep = e @ sep @ strings_Join (e' # es) sep"

subsection \<open>Packages path and path/filepath\<close>

text \<open>
  \<^verbatim>\<open>filepath.Base\<close> with the separator \<^verbatim>\<open>/\<close>: the empty path gives \<^verbatim>\<open>"."\<close>,
  trailing slashes are stripped, everything up to the last slash is dropped, and a path
  of slashes only gives \<^verbatim>\<open>"/"\<close>.
\<close>

definition filepath_Base :: "string \<Rightarrow> string" where
  "filepath_Base p =
     (if p = [] then ''.''
      else
        let stripped = rev (dropWhile (\<lambda>c. c = CHR ''/'') (rev p));
            last_elem = rev (takeWhile (\<lambda>c. c \<noteq> CHR ''/'') (rev stripped))
        in if last_elem = [] then ''/'' else last_elem)"

text \<open>
  \<^verbatim>\<open>path.Clean\<close>, element by element. \<open>out\<close> is the output so far, last element
  first; \<open>dotdot\<close> counts the leading elements of the output that a \<^verbatim>\<open>..\<close> must not
  remove (the kept \<^verbatim>\<open>..\<close> elements of an unrooted path). Empty and \<^verbatim>\<open>.\<close> elements
  are dropped; \<^verbatim>\<open>..\<close> removes the element before it, is dropped at the root, and is
  kept at the start of an unrooted path.
\<close>

fun clean_elems :: "bool \<Rightarrow> string list \<Rightarrow> nat \<Rightarrow> string list \<Rightarrow> string list" where
  "clean_elems rooted out dotdot [] = rev out"
| "clean_elems rooted out dotdot (e # es) =
     (if e = [] \<or> e = ''.'' then clean_elems rooted out dotdot es
      else if e = ''..'' then
        (if dotdot < length out then clean_elems rooted (tl out) dotdot es
         else if \<not> rooted then clean_elems rooted (e # out) (Suc (length out)) es
         else clean_elems rooted out dotdot es)
      else clean_elems rooted (e # out) dotdot es)"

definition path_Clean :: "string \<Rightarrow> string" where
  "path_Clean p =
     (if p = [] then ''.''
      else
        let rooted = (hd p = CHR ''/'');
            joined = strings_Join (clean_elems rooted [] 0 (strings_Split p (CHR ''/''))) ''/''
        in if rooted then CHR ''/'' # joined
           else if joined = [] then ''.'' else joined)"

text \<open>
  \<^verbatim>\<open>path.Join(elem...)\<close>: leading empty elements are ignored, the rest is joined with
  slashes and cleaned; all elements empty gives the empty string.
\<close>

definition path_Join :: "string list \<Rightarrow> string" where
  "path_Join elem =
     (let es = dropWhile (\<lambda>e. e = []) elem
      in if es = [] then [] else path_Clean (strings_Join es ''/''))"

subsection \<open>Package fmt\<close>

definition hexdigit :: "nat \<Rightarrow> char" where
  "hexdigit n = ''0123456789abcdef'' ! n"

text \<open>\<^verbatim>\<open>fmt.Sprintf("%x", b)\<close> for a byte slice: two lower-case hex digits per byte.\<close>

definition fmt_x :: "bytes \<Rightarrow> string" where
  "fmt_x b = concat (map (\<lambda>c. [hexdigit (of_char c div 16), hexdigit (of_char c mod 16)]) b)"

text \<open>The decimal digits of a number that is not negative.\<close>

function decimal :: "int \<Rightarrow> string" where
  "decimal n =
     (if n < 10 then [hexdigit (nat n)] else decimal (n div 10) @ [hexdigit (nat (n mod 10))])"
  by pat_completeness auto
termination
  by (relation "measure nat") auto

declare decimal.simps [simp del]

text \<open>\<^verbatim>\<open>fmt.Sprintf("%d", i)\<close>.\<close>

definition fmt_d :: "int \<Rightarrow> string" where
  "fmt_d i = (if i < 0 then CHR ''-'' # decimal (- i) else decimal i)"

subsection \<open>Package crypto/md5\<close>

text \<open>
  The MD5 checksum of RFC 1321 on 32-bit words: the message is padded with the byte
  \<^verbatim>\<open>0x80\<close>, zero bytes up to 56 modulo 64, and its length in bits as 64 bits
  little-endian; every 64-byte block is 16 little-endian words that go through 64 rounds.
\<close>

type_synonym uint32 = "32 word"

definition md5_shifts :: "nat list" where
  "md5_shifts =
    [7, 12, 17, 22, 7, 12, 17, 22, 7, 12, 17, 22, 7, 12, 17, 22,
     5, 9, 14, 20, 5, 9, 14, 20, 5, 9, 14, 20, 5, 9, 14, 20,
     4, 11, 16, 23, 4, 11, 16, 23, 4, 11, 16, 23, 4, 11, 16, 23,
     6, 10, 15, 21, 6, 10, 15, 21, 6, 10, 15, 21, 6, 10, 15, 21]"

definition md5_table :: "uint32 list" where
  "md5_table =
    [0xd76aa478, 0xe8c7b756, 0x242070db, 0xc1bdceee,
     0xf57c0faf, 0x4787c62a, 0xa8304613, 0xfd469501,
     0x698098d8, 0x8b44f7af, 0xffff5bb1, 0x895cd7be,
     0x6b901122, 0xfd987193, 0xa679438e, 0x49b40821,
     0xf61e2562, 0xc040b340, 0x265e5a51, 0xe9b6c7aa,
     0xd62f105d, 0x02441453, 0xd8a1e681, 0xe7d3fbc8,
     0x21e1cde6, 0xc33707d6, 0xf4d50d87, 0x455a14ed,
     0xa9e3e905, 0xfcefa3f8, 0x676f02d9, 0x8d2a4c8a,
     0xfffa3942, 0x8771f681, 0x6d9d6122, 0xfde5380c,
     0xa4beea44, 0x4bdecfa9, 0xf6bb4b60, 0xbebfbc70,
     0x289b7ec6, 0xeaa127fa, 0xd4ef3085, 0x04881d05,
     0xd9d4d039, 0xe6db99e5, 0x1fa27cf8, 0xc4ac5665,
     0xf4292244, 0x432aff97, 0xab9423a7, 0xfc93a039,
     0x655b59c3, 0x8f0ccc92, 0xffeff47d, 0x85845dd1,
     0x6fa87e4f, 0xfe2ce6e0, 0xa3014314, 0x4e0811a1,
     0xf7537e82, 0xbd3af235, 0x2ad7d2bb, 0xeb86d391]"

record md5_state =
  sA :: uint32
  sB :: uint32
  sC :: uint32
  sD :: uint32

definition md5_init :: md5_state where
  "md5_init = \<lparr>sA = 0x67452301, sB = 0xefcdab89, sC = 0x98badcfe, sD = 0x10325476\<rparr>"

definition rotl32 :: "uint32 \<Rightarrow> nat \<Rightarrow> uint32" where
  "rotl32 x n = push_bit n x OR drop_bit (32 - n) x"

definition le_word :: "bytes \<Rightarrow> uint32" where
  "le_word bs = foldr (\<lambda>c w. of_char c OR push_bit 8 w) bs 0"

fun le_words :: "nat \<Rightarrow> bytes \<Rightarrow> uint32 list" where
  "le_words 0 bs = []"
| "le_words (Suc n) bs = le_word (take 4 bs) # le_words n (drop 4 bs)"

definition md5_round :: "uint32 list \<Rightarrow> md5_state \<Rightarrow> nat \<Rightarrow> md5_state" where
  "md5_round m s i =
    (let a = sA s; b = sB s; c = sC s; d = sD s;
         f = (if i < 16 then (b AND c) OR (NOT b AND d)
              else if i < 32 then (b AND d) OR (c AND NOT d)
              else if i < 48 then b XOR c XOR d
              else c XOR (b OR NOT d));
         g = (if i < 16 then i
              else if i < 32 then (5 * i + 1) mod 16
              else if i < 48 then (3 * i + 5) mod 16
              else (7 * i) mod 16)
     in \<lparr>sA = d,
         sB = b + rotl32 (a + f + md5_table ! i + m ! g) (md5_shifts ! i),
         sC = b,
         sD = c\<rparr>)"

definition md5_block :: "md5_state \<Rightarrow> bytes \<Rightarrow> md5_state" where
  "md5_block s blk =
    (let t = foldl (md5_round (le_words 16 blk)) s [0..<64]
     in \<lparr>sA = sA s + sA t, sB = sB s + sB t, sC = sC s + sC t, sD = sD s + sD t\<rparr>)"

fun md5_blocks :: "nat \<Rightarrow> md5_state \<Rightarrow> bytes \<Rightarrow> md5_state" where
  "md5_blocks 0 s bs = s"
| "md5_blocks (Suc n) s bs = md5_blocks n (md5_block s (take 64 bs)) (drop 64 bs)"

definition byte_of :: "'a::len word \<Rightarrow> char" where
  "byte_of w = char_of (unat (w AND 0xff))"

definition le_bytes32 :: "uint32 \<Rightarrow> bytes" where
  "le_bytes32 w = map (\<lambda>i. byte_of (drop_bit (8 * i) w)) [0..<4]"

definition le_bytes64 :: "64 word \<Rightarrow> bytes" where
  "le_bytes64 w = map (\<lambda>i. byte_of (drop_bit (8 * i) w)) [0..<8]"

definition md5_pad :: "bytes \<Rightarrow> bytes" where
  "md5_pad msg =
     msg @ [char_of (128::nat)]
       @ replicate ((119 - length msg mod 64) mod 64) (char_of (0::nat))
       @ le_bytes64 (push_bit 3 (of_nat (length msg)))"

definition md5_checksum :: "bytes \<Rightarrow> bytes" where
  "md5_checksum msg =
    (let p = md5_pad msg; s = md5_blocks (length p div 64) md5_init p
     in concat (map le_bytes32 [sA s, sB s, sC s, sD s]))"

text \<open>
  The \<^verbatim>\<open>hash.Hash\<close> returned by \<^verbatim>\<open>md5.New()\<close>, by its contract: \<^verbatim>\<open>Write\<close> adds
  data to the running hash and never returns an error, \<^verbatim>\<open>Sum(b)\<close> appends the checksum
  of everything written so far to \<open>b\<close>. The hasher is the data written so far.
\<close>

datatype error = Error string

type_synonym md5_digest = bytes

definition md5_New :: md5_digest where
  "md5_New = []"

definition md5_Write :: "md5_digest \<Rightarrow> bytes \<Rightarrow> error + md5_digest" where
  "md5_Write h p = Inr (h @ p)"

definition md5_Sum :: "md5_digest \<Rightarrow> bytes \<Rightarrow> bytes" where
  "md5_Sum h b = b @ md5_checksum h"

subsection \<open>Files and times\<close>

text \<open>
  A \<^verbatim>\<open>time.Time\<close> is the number of nanoseconds since the zero time
  (January 1, year 1, 00:00 UTC).
\<close>

type_synonym time = int

definition time_zero :: time where
  "time_zero = 0"

definition time_Before :: "time \<Rightarrow> time \<Rightarrow> bool" where
  "time_Before t u = (t < u)"

text \<open>
  An \<^verbatim>\<open>http.File\<close> is what the package observes of it: the result of \<^verbatim>\<open>Stat()\<close>
  and the result of \<^verbatim>\<open>ioutil.ReadAll\<close>, which returns the bytes read together with
  the error that stopped the reading, if any. An \<^verbatim>\<open>http.FileSystem\<close> is its
  \<^verbatim>\<open>Open\<close> method.
\<close>

record fileInfo =
  info_Name :: string
  info_ModTime :: time
  info_IsDir :: bool

record http_File =
  Stat :: "error + fileInfo"
  ReadAll :: "bytes \<times> error option"

type_synonym fileSystem = "string \<Rightarrow> error + http_File"

text \<open>
  \<^verbatim>\<open>http.Dir(dir).Open(name)\<close> opens the file at the cleaned, rooted name below the
  directory; \<open>files\<close> are the files below the directory by their rooted path.
\<close>

definition http_Dir :: "(string \<rightharpoonup> http_File) \<Rightarrow> fileSystem" where
  "http_Dir files name =
     (case files (path_Clean (CHR ''/'' # name)) of
        None \<Rightarrow> Inl (Error ''file does not exist'')
      | Some f \<Rightarrow> Inr f)"

subsection \<open>Requests and responses\<close>

text \<open>
  Of a request, the handler reads the URL path; \<^verbatim>\<open>http.ServeContent\<close> also reads the
  method and the conditional and range headers, held here as \<^verbatim>\<open>net/http\<close> parses
  them; \<open>None\<close> is a header that is absent.
  \<^item> \<^verbatim>\<open>If-Match\<close> and \<^verbatim>\<open>If-None-Match\<close>: whether the scan of the header reaches a
    \<^verbatim>\<open>*\<close> or not. The package sets no \<^verbatim>\<open>Etag\<close>, so a listed entity tag never
    matches.
  \<^item> \<^verbatim>\<open>If-Unmodified-Since\<close> and \<^verbatim>\<open>If-Modified-Since\<close>: the time of the header
    (also \<open>None\<close> when it does not parse, which \<^verbatim>\<open>net/http\<close> treats as absent).
  \<^item> \<^verbatim>\<open>If-Range\<close>: a date, or anything else (an entity tag, or what does not parse).
  \<^item> \<^verbatim>\<open>Range\<close>: a header with one range, by the two sides of its dash, each of them
    missing, a number or malformed; a header with no range in it (\<^verbatim>\<open>bytes=\<close>); or a
    header without the unit or the dash. A header that lists several ranges is
    answered with a multipart body under a random boundary and is outside the model.

  A response is what was written to the \<^verbatim>\<open>http.ResponseWriter\<close>: of the headers those
  that the package sets, the status code and the body.
\<close>

datatype entity_tags = AnyTag | TagList

datatype if_range = IfRange_Date time | IfRange_Other

datatype range_part = Missing | Number nat | Malformed

datatype byte_range = Range_Spec range_part range_part | Range_Empty | Range_Invalid

record request =
  Method :: string
  URL_Path :: string
  IfMatch :: "entity_tags option"
  IfUnmodifiedSince :: "time option"
  IfNoneMatch :: "entity_tags option"
  IfModifiedSince :: "time option"
  IfRange :: "if_range option"
  RangeHeader :: "byte_range option"

record response =
  Header :: "string \<rightharpoonup> string"
  Status :: nat
  Body :: bytes

definition newResponseWriter :: response where
  "newResponseWriter = \<lparr>Header = Map.empty, Status = 0, Body = []\<rparr>"

definition Header_Set :: "response \<Rightarrow> string \<Rightarrow> string \<Rightarrow> response" where
  "Header_Set w k v = w\<lparr>Header := (Header w)(k \<mapsto> v)\<rparr>"

definition Header_Del :: "response \<Rightarrow> string \<Rightarrow> response" where
  "Header_Del w k = w\<lparr>Header := (Header w)(k := None)\<rparr>"

definition WriteHeader :: "response \<Rightarrow> nat \<Rightarrow> response" where
  "WriteHeader w code = w\<lparr>Status := code\<rparr>"

definition Write :: "response \<Rightarrow> bytes \<Rightarrow> response" where
  "Write w b = w\<lparr>Body := Body w @ b\<rparr>"

definition unixEpochTime :: time where
  "unixEpochTime = 62135596800 * 1000000000"

definition isZeroTime :: "time \<Rightarrow> bool" where
  "isZeroTime t = (t = time_zero \<or> t = unixEpochTime)"

text \<open>\<^verbatim>\<open>t.Truncate(time.Second)\<close> and \<^verbatim>\<open>t.Unix()\<close>.\<close>

definition truncate_second :: "time \<Rightarrow> time" where
  "truncate_second t = t - t mod 1000000000"

definition time_Unix :: "time \<Rightarrow> int" where
  "time_Unix t = t div 1000000000 - 62135596800"

text \<open>
  The preconditions of \<^verbatim>\<open>net/http\<close> (file \<^verbatim>\<open>fs.go\<close>), each with the result
  \<^verbatim>\<open>condNone\<close> when its header is absent or does not apply.
\<close>

datatype condResult = condNone | condTrue | condFalse

definition checkIfMatch :: "request \<Rightarrow> condResult" where
  "checkIfMatch r =
     (case IfMatch r of
        None \<Rightarrow> condNone
      | Some AnyTag \<Rightarrow> condTrue
      | Some TagList \<Rightarrow> condFalse)"

definition checkIfUnmodifiedSince :: "request \<Rightarrow> time \<Rightarrow> condResult" where
  "checkIfUnmodifiedSince r modtime =
     (case IfUnmodifiedSince r of
        None \<Rightarrow> condNone
      | Some t \<Rightarrow>
          if isZeroTime modtime then condNone
          else if truncate_second modtime \<le> t then condTrue
          else condFalse)"

definition checkIfNoneMatch :: "request \<Rightarrow> condResult" where
  "checkIfNoneMatch r =
     (case IfNoneMatch r of
        None \<Rightarrow> condNone
      | Some AnyTag \<Rightarrow> condFalse
      | Some TagList \<Rightarrow> condTrue)"

definition checkIfModifiedSince :: "request \<Rightarrow> time \<Rightarrow> condResult" where
  "checkIfModifiedSince r modtime =
     (if Method r \<noteq> ''GET'' \<and> Method r \<noteq> ''HEAD'' then condNone
      else
        (case IfModifiedSince r of
           None \<Rightarrow> condNone
         | Some t \<Rightarrow>
             if isZeroTime modtime then condNone
             else if truncate_second modtime \<le> t then condFalse
             else condTrue))"

definition checkIfRange :: "request \<Rightarrow> time \<Rightarrow> condResult" where
  "checkIfRange r modtime =
     (if Method r \<noteq> ''GET'' \<and> Method r \<noteq> ''HEAD'' then condNone
      else
        (case IfRange r of
           None \<Rightarrow> condNone
         | Some IfRange_Other \<Rightarrow> condFalse
         | Some (IfRange_Date t) \<Rightarrow>
             if modtime = time_zero then condFalse
             else if time_Unix t = time_Unix modtime then condTrue
             else condFalse))"

text \<open>
  \<^verbatim>\<open>checkPreconditions\<close>: either the response is done, with the status written, or
  the content is to be served, with the range header to use.
\<close>

datatype preconditions = Done nat | Serve "byte_range option"

definition checkPreconditions :: "request \<Rightarrow> time \<Rightarrow> preconditions" where
  "checkPreconditions r modtime =
     (let ch = (case checkIfMatch r of
                  condNone \<Rightarrow> checkIfUnmodifiedSince r modtime
                | condTrue \<Rightarrow> condTrue
                | condFalse \<Rightarrow> condFalse);
          rangeHeader =
            (if RangeHeader r \<noteq> None \<and> checkIfRange r modtime = condFalse then None
             else RangeHeader r)
      in if ch = condFalse then Done 412
         else
           (case checkIfNoneMatch r of
              condFalse \<Rightarrow>
                if Method r = ''GET'' \<or> Method r = ''HEAD'' then Done 304 else Done 412
            | condNone \<Rightarrow>
                if checkIfModifiedSince r modtime = condFalse then Done 304
                else Serve rangeHeader
            | condTrue \<Rightarrow> Serve rangeHeader))"

text \<open>
  \<^verbatim>\<open>parseRange(s, size)\<close> on a header with at most one range: an error, no range, or
  the start and the length of the range.
\<close>

datatype range_error = errInvalidRange | errNoOverlap

definition parseRange :: "byte_range option \<Rightarrow> nat \<Rightarrow> range_error + (nat \<times> nat) option" where
  "parseRange s sz =
     (case s of
        None \<Rightarrow> Inr None
      | Some Range_Invalid \<Rightarrow> Inl errInvalidRange
      | Some Range_Empty \<Rightarrow> Inr None
      | Some (Range_Spec Missing stop) \<Rightarrow>
          (case stop of
             Number i \<Rightarrow> Inr (Some (sz - min i sz, min i sz))
           | Missing \<Rightarrow> Inl errInvalidRange
           | Malformed \<Rightarrow> Inl errInvalidRange)
      | Some (Range_Spec Malformed stop) \<Rightarrow> Inl errInvalidRange
      | Some (Range_Spec (Number start) stop) \<Rightarrow>
          if sz \<le> start then Inl errNoOverlap
          else
            (case stop of
               Missing \<Rightarrow> Inr (Some (start, sz - start))
             | Malformed \<Rightarrow> Inl errInvalidRange
             | Number i \<Rightarrow>
                 if i < start then Inl errInvalidRange
                 else Inr (Some (start, min i (sz - 1) - start + 1))))"

definition range_error_text :: "range_error \<Rightarrow> string" where
  "range_error_text e =
     (case e of
        errInvalidRange \<Rightarrow> ''invalid range''
      | errNoOverlap \<Rightarrow> ''invalid range: failed to overlap'')"

text \<open>
  The end of \<^verbatim>\<open>serveContent\<close>: the status, and the bytes unless the method is HEAD.
\<close>

definition send_content :: "response \<Rightarrow> request \<Rightarrow> nat \<Rightarrow> bytes \<Rightarrow> response" where
  "send_content w req code b =
     (let w1 = WriteHeader w code
      in if Method req = ''HEAD'' then w1 else Write w1 b)"

text \<open>
  \<^verbatim>\<open>serveError\<close> (Go 1.23 and later): the headers meant for the content, of which
  the package sets \<^verbatim>\<open>Cache-Control\<close>, are deleted, and the error text is the body.
\<close>

definition serveError :: "response \<Rightarrow> string \<Rightarrow> nat \<Rightarrow> response" where
  "serveError w text code =
     Write (WriteHeader (Header_Del w ''Cache-Control'') code) (text @ [CHR 0x0A])"

text \<open>
  \<^verbatim>\<open>http.ServeContent(w, req, name, modtime, content)\<close>. A failed precondition ends
  the response with 412, an unmodified content with 304, both without a body. Otherwise
  the range header is parsed against the size of the content: a range is answered 206
  with its bytes, an error 416 with the error text (but a range that starts after the
  end of an empty content is ignored), and no range 200 with the whole content. The
  name only chooses the \<^verbatim>\<open>Content-Type\<close>; the headers that \<^verbatim>\<open>net/http\<close> adds are
  not part of the model.
\<close>

definition http_ServeContent :: "response \<Rightarrow> request \<Rightarrow> string \<Rightarrow> time \<Rightarrow> bytes \<Rightarrow> response" where
  "http_ServeContent w req name modtime content =
     (case checkPreconditions req modtime of
        Done code \<Rightarrow> WriteHeader w code
      | Serve rangeReq \<Rightarrow>
          (case parseRange rangeReq (length content) of
             Inl err \<Rightarrow>
               if err = errNoOverlap \<and> content = [] then send_content w req 200 content
               else serveError w (range_error_text err) 416
           | Inr None \<Rightarrow> send_content w req 200 content
           | Inr (Some (start, len)) \<Rightarrow>
               send_content w req 206 (take len (drop start content))))"

text \<open>A request that carries none of the conditional headers and no range header.\<close>

definition unconditional :: "request \<Rightarrow> bool" where
  "unconditional r =
     (IfMatch r = None \<and> IfUnmodifiedSince r = None \<and> IfNoneMatch r = None \<and>
      IfModifiedSince r = None \<and> RangeHeader r = None)"

text \<open>The GET request for a path, with none of these headers.\<close>

definition GET :: "string \<Rightarrow> request" where
  "GET p =
     \<lparr>Method = ''GET'', URL_Path = p, IfMatch = None, IfUnmodifiedSince = None,
      IfNoneMatch = None, IfModifiedSince = None, IfRange = None, RangeHeader = None\<rparr>"

subsection \<open>static.go\<close>

definition Path :: string where
  "Path = ''/static/''"

record cacheEntry =
  Content :: bytes
  ModTime :: time

text \<open>
  The package variables. \<open>cacheMaxAge\<close> holds \<^verbatim>\<open>int(cacheMaxAge.Seconds())\<close>, the
  configured duration in whole seconds (the default is 87658 hours). The flag
  \<^verbatim>\<open>cacheEnable\<close> is read by the HTML helpers only and is left out.
\<close>

record state =
  cacheMaxAge :: int
  fileSystem :: fileSystem
  cache :: "string \<rightharpoonup> cacheEntry"

definition default_cacheMaxAge :: int where
  "default_cacheMaxAge = 87658 * 3600"

definition notFound :: "response \<Rightarrow> request \<Rightarrow> response" where
  "notFound w r =
     (let w1 = Header_Set w ''Cache-Control'' ''no-cache'';
          w2 = Header_Set w1 ''Pragma'' ''no-cache'';
          w3 = WriteHeader w2 404
      in Write w3 ''static resource not found!'')"

definition joinBasenames :: "string list \<Rightarrow> string" where
  "joinBasenames names = strings_Join (map filepath_Base names) ''-''"

text \<open>
  The loop of \<^verbatim>\<open>CombinedURL\<close> over the names, with the hasher and the cache entry
  built so far; the first error ends it.
\<close>

fun CombinedURL_loop ::
  "fileSystem \<Rightarrow> string list \<Rightarrow> md5_digest \<Rightarrow> cacheEntry \<Rightarrow> error + (md5_digest \<times> cacheEntry)" where
  "CombinedURL_loop fs [] h ce = Inr (h, ce)"
| "CombinedURL_loop fs (name # names) h ce =
     (case fs name of
        Inl err \<Rightarrow> Inl err
      | Inr f \<Rightarrow>
          (case Stat f of
             Inl err \<Rightarrow> Inl err
           | Inr stat \<Rightarrow>
               let modTime = info_ModTime stat;
                   ce1 = (if time_Before (ModTime ce) modTime then ce\<lparr>ModTime := modTime\<rparr> else ce)
               in (case ReadAll f of
                     (content, Some err) \<Rightarrow> Inl err
                   | (content, None) \<Rightarrow>
                       let ce2 = ce1\<lparr>Content := Content ce1 @ content\<rparr>
                       in (case md5_Write h content of
                             Inl err \<Rightarrow> Inl err
                           | Inr h' \<Rightarrow> CombinedURL_loop fs names h' ce2))))"

text \<open>
  \<^verbatim>\<open>CombinedURL(names)\<close> returns the URL and the error, and the package variables
  after the call. The slice \<^verbatim>\<open>hex[:10]\<close> is always in range (lemma
  \<open>length_hex_Sum\<close> below).
\<close>

definition CombinedURL :: "state \<Rightarrow> string list \<Rightarrow> (string \<times> error option) \<times> state" where
  "CombinedURL st names =
     (case CombinedURL_loop (fileSystem st) names md5_New \<lparr>Content = [], ModTime = time_zero\<rparr> of
        Inl err \<Rightarrow> (([], Some err), st)
      | Inr (h, ce) \<Rightarrow>
          let hex = fmt_x (md5_Sum h []);
              hexS = take 10 hex;
              url = path_Join [Path, hexS, joinBasenames names]
          in ((url, None), st\<lparr>cache := (cache st)(hexS \<mapsto> ce)\<rparr>))"

definition URL :: "state \<Rightarrow> string \<Rightarrow> (string \<times> error option) \<times> state" where
  "URL st name = CombinedURL st [name]"

text \<open>\<^verbatim>\<open>Handle(w, r)\<close> on a fresh response writer: the response and the package variables after it.\<close>

definition Handle :: "state \<Rightarrow> request \<Rightarrow> response \<times> state" where
  "Handle st r =
     (let w = newResponseWriter; path = URL_Path r
      in if \<not> strings_HasPrefix path Path then (notFound w r, st)
         else
           let parts = strings_Split path (CHR ''/'')
           in if length parts < 3 then (notFound w r, st)
              else
                (case cache st (parts ! 2) of
                   None \<Rightarrow> (notFound w r, st)
                 | Some ce \<Rightarrow>
                     let w1 = Header_Set w ''Cache-Control''
                                (''public, max-age='' @ fmt_d (cacheMaxAge st))
                     in (http_ServeContent w1 r path (ModTime ce) (Content ce), st)))"

subsection \<open>The cache-less variant\<close>

text \<open>
  The earlier variant of the package has no cache table: \<^verbatim>\<open>URL\<close> hashes one file
  and keeps its name as given, \<^verbatim>\<open>Handle\<close> opens the file named by the path segments
  after the digest.
\<close>

definition URL_nocache :: "state \<Rightarrow> string \<Rightarrow> string \<times> error option" where
  "URL_nocache st name =
     (case fileSystem st name of
        Inl err \<Rightarrow> ([], Some err)
      | Inr f \<Rightarrow>
          let h = md5_New
          in (case ReadAll f of
                (content, Some err) \<Rightarrow> ([], Some err)
              | (content, None) \<Rightarrow>
                  (case md5_Write h content of
                     Inl err \<Rightarrow> ([], Some err)
                   | Inr h' \<Rightarrow>
                       let hex = fmt_x (md5_Sum h' [])
                       in (path_Join [Path, take 10 hex, name], None))))"

definition Handle_nocache :: "state \<Rightarrow> request \<Rightarrow> response" where
  "Handle_nocache st r =
     (let w = newResponseWriter; path = URL_Path r
      in if \<not> strings_HasPrefix path Path then notFound w r
         else
           let parts = strings_Split path (CHR ''/'')
           in if length parts < 3 then notFound w r
              else
                let newPath = strings_Join (drop 3 parts) ''/''
                in (case fileSystem st newPath of
                      Inl err \<Rightarrow> notFound w r
                    | Inr f \<Rightarrow>
                        (case Stat f of
                           Inl err \<Rightarrow> notFound w r
                         | Inr d \<Rightarrow>
                             if info_IsDir d then notFound w r
                             else
                               let w1 = Header_Set w ''Cache-Control''
                                          (''public, max-age='' @ fmt_d (cacheMaxAge st))
                               in http_ServeContent w1 r (info_Name d) (info_ModTime d)
                                    (fst (ReadAll f)))))"

subsection \<open>What a resolution reads\<close>

text \<open>
  The error, if any, that stops \<^verbatim>\<open>CombinedURL\<close> at a name: the error of
  \<^verbatim>\<open>Open\<close>, else of \<^verbatim>\<open>Stat\<close>, else of \<^verbatim>\<open>ReadAll\<close>.
\<close>

definition file_error :: "fileSystem \<Rightarrow> string \<Rightarrow> error option" where
  "file_error fs name =
     (case fs name of
        Inl err \<Rightarrow> Some err
      | Inr f \<Rightarrow> (case Stat f of Inl err \<Rightarrow> Some err | Inr stat \<Rightarrow> snd (ReadAll f)))"

text \<open>The full contents of the named files, in the order of the names.\<close>

definition file_contents :: "fileSystem \<Rightarrow> string list \<Rightarrow> bytes list" where
  "file_contents fs names =
     map (\<lambda>name. case fs name of Inl err \<Rightarrow> [] | Inr f \<Rightarrow> fst (ReadAll f)) names"

text \<open>The first ten hexadecimal digits of the MD5 sum of a byte string.\<close>

definition digest_of :: "bytes \<Rightarrow> string" where
  "digest_of content = take 10 (fmt_x (md5_checksum content))"

text \<open>The shape of a digest string: ten lower-case hexadecimal digits.\<close>

definition is_digest :: "string \<Rightarrow> bool" where
  "is_digest d = (length d = 10 \<and> set d \<subseteq> set ''0123456789abcdef'')"

subsection \<open>A directory of assets\<close>

text \<open>
  A resources directory with a stylesheet and two scripts, one of them in a
  subdirectory, and the package variables after \<^verbatim>\<open>SetDir\<close> on it, with the default
  maximum age and nothing resolved yet.
\<close>

definition app_css :: http_File where
  "app_css =
     \<lparr>Stat = Inr \<lparr>info_Name = ''app.css'', info_ModTime = 63900000000000000000,
                   info_IsDir = False\<rparr>,
      ReadAll = (''body{color:#0812b0}'', None)\<rparr>"

definition a_js :: http_File where
  "a_js =
     \<lparr>Stat = Inr \<lparr>info_Name = ''a.js'', info_ModTime = 63900000001000000000,
                   info_IsDir = False\<rparr>,
      ReadAll = (''1'', None)\<rparr>"

definition b_js :: http_File where
  "b_js =
     \<lparr>Stat = Inr \<lparr>info_Name = ''b.js'', info_ModTime = 63900000002000000500,
                   info_IsDir = False\<rparr>,
      ReadAll = (''11'', None)\<rparr>"

definition example_files :: "string \<rightharpoonup> http_File" where
  "example_files = [''/css/app.css'' \<mapsto> app_css, ''/a.js'' \<mapsto> a_js, ''/js/b.js'' \<mapsto> b_js]"

definition example_state :: state where
  "example_state =
     \<lparr>cacheMaxAge = default_cacheMaxAge, fileSystem = http_Dir example_files,
      cache = Map.empty\<rparr>"

text \<open>The two scripts resolved together: the entry stored, and the package variables after it.\<close>

definition scripts_entry :: cacheEntry where
  "scripts_entry = \<lparr>Content = ''111'', ModTime = 63900000002000000500\<rparr>"

definition resolved_state :: state where
  "resolved_state = example_state\<lparr>cache := [''698d51a19d'' \<mapsto> scripts_entry]\<rparr>"

text \<open>
  A GET request for the URL of the two scripts, the same request made conditional, and
  the same request for the first byte only (\<^verbatim>\<open>Range: bytes=0-0\<close>).
\<close>

definition scripts_request :: request where
  "scripts_request =
     (GET ''/static/698d51a19d/a.js-b.js'')"

definition conditional_request :: request where
  "conditional_request = scripts_request\<lparr>IfModifiedSince := Some 63900000003000000000\<rparr>"

definition range_request :: request where
  "range_request = scripts_request\<lparr>RangeHeader := Some (Range_Spec (Number 0) (Number 0))\<rparr>"

text \<open>The directory after the stylesheet was edited.\<close>

definition app_css_changed :: http_File where
  "app_css_changed =
     \<lparr>Stat = Inr \<lparr>info_Name = ''app.css'', info_ModTime = 63900000300000000000,
                   info_IsDir = False\<rparr>,
      ReadAll = (''body{color:#0a8406}'', None)\<rparr>"

definition changed_files :: "string \<rightharpoonup> http_File" where
  "changed_files = example_files(''/css/app.css'' \<mapsto> app_css_changed)"

text \<open>The package variables of the cache-less variant over the edited directory.\<close>

definition changed_state :: state where
  "changed_state = example_state\<lparr>fileSystem := http_Dir changed_files\<rparr>"

text \<open>
  The stylesheet resolved alone, a GET request for its URL, and the package variables
  after the stylesheet was edited and resolved again.
\<close>

definition stylesheet_state :: state where
  "stylesheet_state =
     example_state\<lparr>cache := [''79f9fce560'' \<mapsto>
       \<lparr>Content = ''body{color:#0812b0}'', ModTime = 63900000000000000000\<rparr>]\<rparr>"

definition stylesheet_request :: request where
  "stylesheet_request =
     (GET ''/static/79f9fce560/app.css'')"

definition restyled_state :: state where
  "restyled_state =
     changed_state\<lparr>cache := [''79f9fce560'' \<mapsto>
       \<lparr>Content = ''body{color:#0a8406}'', ModTime = 63900000300000000000\<rparr>]\<rparr>"

subsection \<open>Reachable states\<close>

text \<open>
  The cache table is content-addressed when every entry is stored under the digest of
  its own content.
\<close>

definition cache_addressed :: "(string \<rightharpoonup> cacheEntry) \<Rightarrow> bool" where
  "cache_addressed c = (\<forall>k ce. c k = Some ce \<longrightarrow> k = digest_of (Content ce))"

text \<open>
  The package variables a running program can reach: it starts with an empty cache
  table; then names are resolved, requests are handled, and the files behind the file
  system change.
\<close>

inductive reachable :: "state \<Rightarrow> bool" where
  start: "cache st = Map.empty \<Longrightarrow> reachable st"
| resolve: "reachable st \<Longrightarrow> reachable (snd (CombinedURL st names))"
| request: "reachable st \<Longrightarrow> reachable (snd (Handle st r))"
| files: "reachable st \<Longrightarrow> reachable (st\<lparr>fileSystem := fs\<rparr>)"

section \<open>Properties\<close>

subsection \<open>The digest string\<close>

lemma length_fmt_x: "length (fmt_x b) = 2 * length b"
  by (induction b) (simp_all add: fmt_x_def)

lemma length_md5_checksum: "length (md5_checksum msg) = 16"
  by (simp add: md5_checksum_def le_bytes32_def Let_def)

lemma length_hex_Sum: "length (fmt_x (md5_Sum h [])) = 32"
  by (simp add: length_fmt_x md5_Sum_def length_md5_checksum)

lemma hexdigit_mem: "n < 16 \<Longrightarrow> hexdigit n \<in> set ''0123456789abcdef''"
  unfolding hexdigit_def by (rule nth_mem) simp

lemma set_fmt_x: "set (fmt_x b) \<subseteq> set ''0123456789abcdef''"
proof (induction b)
  case Nil
  show ?case by (simp add: fmt_x_def)
next
  case (Cons c b)
  have hi: "(of_char c :: nat) div 16 < 16"
    using nat_of_char_less_256 [of c] by (simp add: less_mult_imp_div_less)
  have lo: "(of_char c :: nat) mod 16 < 16" by simp
  have "fmt_x (c # b) = hexdigit (of_char c div 16) # hexdigit (of_char c mod 16) # fmt_x b"
    by (simp add: fmt_x_def)
  with Cons hexdigit_mem [OF hi] hexdigit_mem [OF lo] show ?case by simp
qed

text \<open>The checksums of the byte strings used below.\<close>

lemma md5_empty: "fmt_x (md5_checksum []) = ''d41d8cd98f00b204e9800998ecf8427e''"
  by code_simp

lemma md5_111: "fmt_x (md5_checksum ''111'') = ''698d51a19d8a121ce581499d7b701668''"
  by code_simp

lemma md5_app_css: "fmt_x (md5_checksum ''body{color:#0812b0}'') = ''79f9fce5601ebb44ed55600935aeaed9''"
  by code_simp

lemma md5_app_css_changed: "fmt_x (md5_checksum ''body{color:#0a8406}'') = ''79f9fce560e388cd96e9701b0a9beffc''"
  by code_simp

subsection \<open>Splitting, joining and cleaning paths\<close>

lemma strings_Split_nonempty: "strings_Split s sep \<noteq> []"
  by (induction s) (auto split: list.splits)

lemma strings_Split_append:
  "strings_Split (a @ sep # b) sep = strings_Split a sep @ strings_Split b sep"
proof (induction a)
  case Nil
  show ?case by simp
next
  case (Cons c a)
  then show ?case
    using strings_Split_nonempty [of a sep]
    by (cases "strings_Split a sep") (auto split: list.splits)
qed

lemma strings_Split_no_sep: "sep \<notin> set s \<Longrightarrow> strings_Split s sep = [s]"
  by (induction s) auto

lemma clean_elems_no_dotdot:
  "''..'' \<notin> set es \<Longrightarrow>
   clean_elems rooted out dotdot es = rev out @ filter (\<lambda>e. e \<noteq> [] \<and> e \<noteq> ''.'') es"
  by (induction es arbitrary: out) auto

lemma slash_Join:
  "es \<noteq> [] \<Longrightarrow> CHR ''/'' # strings_Join es ''/'' = concat (map ((#) (CHR ''/'')) es)"
  by (induction es "''/''" rule: strings_Join.induct) auto

lemma is_digest_digest_of: "is_digest (digest_of content)"
  unfolding is_digest_def digest_of_def
  using set_fmt_x [of "md5_checksum content"] set_take_subset [of 10 "fmt_x (md5_checksum content)"]
  by (simp add: length_fmt_x length_md5_checksum)

lemma is_digest_elem:
  "is_digest d \<Longrightarrow> CHR ''/'' \<notin> set d \<and> d \<noteq> [] \<and> d \<noteq> ''.'' \<and> d \<noteq> ''..''"
  by (auto simp: is_digest_def)

lemma path_Join_url:
  assumes d: "is_digest d" and nd: "''..'' \<notin> set (strings_Split joined (CHR ''/''))"
  shows "path_Join [Path, d, joined] =
           Path @ d @ concat (map ((#) (CHR ''/''))
             (filter (\<lambda>e. e \<noteq> [] \<and> e \<noteq> ''.'') (strings_Split joined (CHR ''/''))))"
proof -
  from is_digest_elem [OF d] have d1: "CHR ''/'' \<notin> set d" and d2: "d \<noteq> []" and d3: "d \<noteq> ''.''"
    and d4: "d \<noteq> ''..''" by simp_all
  let ?p = "''/static/'' @ CHR ''/'' # d @ CHR ''/'' # joined"
  have sp: "strings_Split ?p (CHR ''/'') = [[], ''static'', [], d] @ strings_Split joined (CHR ''/'')"
    using strings_Split_append [of d "CHR ''/''" joined] by (simp add: strings_Split_no_sep [OF d1])
  have ce: "clean_elems True [] 0 (strings_Split ?p (CHR ''/'')) =
      [''static'', d] @ filter (\<lambda>e. e \<noteq> [] \<and> e \<noteq> ''.'') (strings_Split joined (CHR ''/''))"
    unfolding sp using d2 d3 d4 by (simp add: clean_elems_no_dotdot [OF nd])
  have ne: "clean_elems True [] 0 (strings_Split ?p (CHR ''/'')) \<noteq> []"
    unfolding ce by simp
  have "path_Join [Path, d, joined] = path_Clean ?p"
    by (simp add: path_Join_def Path_def)
  also have "\<dots> = CHR ''/'' # strings_Join (clean_elems True [] 0 (strings_Split ?p (CHR ''/''))) ''/''"
    by (simp add: path_Clean_def)
  also have "\<dots> = concat (map ((#) (CHR ''/'')) (clean_elems True [] 0 (strings_Split ?p (CHR ''/''))))"
    by (rule slash_Join [OF ne])
  also have "\<dots> = concat (map ((#) (CHR ''/'')) ([''static'', d] @
      filter (\<lambda>e. e \<noteq> [] \<and> e \<noteq> ''.'') (strings_Split joined (CHR ''/''))))"
    by (simp only: ce)
  finally show ?thesis by (simp add: Path_def)
qed

lemma HasPrefix_Path: "strings_HasPrefix (Path @ s) Path"
  by (simp add: strings_HasPrefix_def)

lemma Split_url:
  assumes "CHR ''/'' \<notin> set d"
  shows "strings_Split (Path @ d @ concat (map ((#) (CHR ''/'')) es)) (CHR ''/'') =
           [] # ''static'' # d # concat (map (\<lambda>e. strings_Split e (CHR ''/'')) es)"
proof -
  have tl: "strings_Split (d @ concat (map ((#) (CHR ''/'')) es)) (CHR ''/'') =
      d # concat (map (\<lambda>e. strings_Split e (CHR ''/'')) es)" for es
  proof (induction es rule: rev_induct)
    case Nil
    show ?case by (simp add: strings_Split_no_sep [OF assms])
  next
    case (snoc e es)
    have "strings_Split (d @ concat (map ((#) (CHR ''/'')) (es @ [e]))) (CHR ''/'') =
        strings_Split ((d @ concat (map ((#) (CHR ''/'')) es)) @ CHR ''/'' # e) (CHR ''/'')"
      by simp
    also have "\<dots> = strings_Split (d @ concat (map ((#) (CHR ''/'')) es)) (CHR ''/'') @ strings_Split e (CHR ''/'')"
      by (rule strings_Split_append)
    finally show ?case by (simp add: snoc.IH)
  qed
  have "strings_Split (Path @ d @ concat (map ((#) (CHR ''/'')) es)) (CHR ''/'') =
      strings_Split ([] @ CHR ''/'' # (''static'' @ CHR ''/'' # (d @ concat (map ((#) (CHR ''/'')) es)))) (CHR ''/'')"
    by (simp add: Path_def)
  also have "\<dots> = [[]] @ ([''static''] @ strings_Split (d @ concat (map ((#) (CHR ''/'')) es)) (CHR ''/''))"
    unfolding strings_Split_append by simp
  finally show ?thesis by (simp add: tl)
qed

subsection \<open>The loop of CombinedURL\<close>

lemma loop_Inr:
  "CombinedURL_loop fs names h ce = Inr (h', ce') \<Longrightarrow>
     h' = h @ concat (file_contents fs names) \<and>
     Content ce' = Content ce @ concat (file_contents fs names) \<and>
     (\<forall>n \<in> set names. file_error fs n = None)"
proof (induction names arbitrary: h ce)
  case Nil
  then show ?case by (simp add: file_contents_def)
next
  case (Cons name names)
  from Cons.prems obtain f where f: "fs name = Inr f"
    by (cases "fs name") auto
  from Cons.prems obtain stat where stat: "Stat f = Inr stat"
    by (cases "Stat f") (auto simp: f)
  from Cons.prems obtain content where rd: "ReadAll f = (content, None)"
    by (cases "ReadAll f"; cases "snd (ReadAll f)") (auto simp: f stat Let_def)
  define ce1 where "ce1 = (if time_Before (ModTime ce) (info_ModTime stat)
    then ce\<lparr>ModTime := info_ModTime stat\<rparr> else ce)"
  have rec: "CombinedURL_loop fs names (h @ content) (ce1\<lparr>Content := Content ce1 @ content\<rparr>) = Inr (h', ce')"
    using Cons.prems by (simp add: f stat rd md5_Write_def ce1_def Let_def)
  have c1: "Content ce1 = Content ce" by (simp add: ce1_def)
  have fc: "file_contents fs (name # names) = content # file_contents fs names"
    by (simp add: file_contents_def f rd)
  have fe: "file_error fs name = None" by (simp add: file_error_def f stat rd)
  from Cons.IH [OF rec] show ?case by (simp add: c1 fc fe)
qed

lemma loop_Inl:
  "CombinedURL_loop fs names h ce = Inl err \<Longrightarrow> \<exists>n \<in> set names. file_error fs n = Some err"
proof (induction names arbitrary: h ce)
  case Nil
  then show ?case by simp
next
  case (Cons name names)
  show ?case
  proof (cases "file_error fs name")
    case None
    then obtain f where f: "fs name = Inr f"
      by (cases "fs name") (auto simp: file_error_def)
    from None obtain stat where stat: "Stat f = Inr stat"
      by (cases "Stat f") (auto simp: file_error_def f)
    from None obtain content where rd: "ReadAll f = (content, None)"
      by (cases "ReadAll f") (auto simp: file_error_def f stat)
    from Cons.prems have "\<exists>h1 ce1. CombinedURL_loop fs names h1 ce1 = Inl err"
      by (auto simp: f stat rd md5_Write_def Let_def)
    with Cons.IH show ?thesis by auto
  next
    case (Some e)
    with Cons.prems have "e = err"
      by (cases "fs name"; cases "Stat (projr (fs name))"; cases "ReadAll (projr (fs name))")
         (auto simp: file_error_def md5_Write_def Let_def)
    with Some show ?thesis by simp
  qed
qed

lemma loop_fails:
  "n \<in> set names \<Longrightarrow> file_error fs n \<noteq> None \<Longrightarrow> \<exists>err. CombinedURL_loop fs names h ce = Inl err"
  by (cases "CombinedURL_loop fs names h ce") (auto dest: loop_Inr)

lemma CombinedURL_success:
  assumes "CombinedURL st names = ((url, None), st')"
  shows "\<exists>ce. url = path_Join [Path, digest_of (concat (file_contents (fileSystem st) names)),
                  joinBasenames names] \<and>
              st' = st\<lparr>cache := (cache st)
                (digest_of (concat (file_contents (fileSystem st) names)) \<mapsto> ce)\<rparr> \<and>
              Content ce = concat (file_contents (fileSystem st) names)"
proof (cases "CombinedURL_loop (fileSystem st) names md5_New \<lparr>Content = [], ModTime = time_zero\<rparr>")
  case (Inl err)
  with assms show ?thesis by (simp add: CombinedURL_def)
next
  case (Inr p)
  obtain h ce where p: "p = (h, ce)" by (cases p)
  from loop_Inr [OF Inr [unfolded p]]
  have h: "h = concat (file_contents (fileSystem st) names)"
    and c: "Content ce = concat (file_contents (fileSystem st) names)"
    by (simp_all add: md5_New_def)
  from assms show ?thesis
    by (auto simp: CombinedURL_def Inr p Let_def md5_Sum_def digest_of_def h c intro!: exI [of _ ce])
qed

lemma CombinedURL_succeeds:
  assumes "\<forall>n \<in> set names. file_error (fileSystem st) n = None"
  shows "\<exists>url st'. CombinedURL st names = ((url, None), st')"
proof (cases "CombinedURL_loop (fileSystem st) names md5_New \<lparr>Content = [], ModTime = time_zero\<rparr>")
  case (Inl err)
  from loop_Inl [OF Inl] assms show ?thesis by auto
next
  case (Inr p)
  then show ?thesis by (cases p) (simp add: CombinedURL_def Let_def)
qed

subsection \<open>Evaluating the example\<close>

lemma example_missing: "file_error (fileSystem example_state) ''missing.js'' \<noteq> None"
  by code_simp

lemma scripts_loop:
  "CombinedURL_loop (fileSystem example_state) [''a.js'', ''js/b.js''] md5_New
     \<lparr>Content = [], ModTime = time_zero\<rparr> = Inr (''111'', scripts_entry)"
  by code_simp

lemma scripts_url:
  "path_Join [Path, ''698d51a19d'', joinBasenames [''a.js'', ''js/b.js'']] = ''/static/698d51a19d/a.js-b.js''"
  by code_simp

lemma scripts_resolved:
  "CombinedURL example_state [''a.js'', ''js/b.js''] =
     ((''/static/698d51a19d/a.js-b.js'', None), resolved_state)"
proof -
  have c: "cache example_state = Map.empty" by (simp add: example_state_def)
  show ?thesis
    unfolding CombinedURL_def scripts_loop
    by (simp add: md5_Sum_def md5_111 scripts_url resolved_state_def c)
qed

lemma scripts_contents: "file_contents (fileSystem example_state) [''a.js'', ''js/b.js''] = [''1'', ''11'']"
  by code_simp

lemma scripts_no_dotdot:
  "''..'' \<notin> set (strings_Split (joinBasenames [''a.js'', ''js/b.js'']) (CHR ''/''))"
  by code_simp

lemma max_age_default: "fmt_d default_cacheMaxAge = ''315568800''"
  by code_simp

subsection \<open>Failed resolutions\<close>

text \<open>
  Claim C7. All-or-nothing resolution: if any file of the list cannot be opened, stat'd
  or fully read, \<^verbatim>\<open>CombinedURL\<close> returns the empty URL together with the error of one
  of the files, a filesystem error, and leaves the package variables, the cache table
  among them, as they were.
\<close>

theorem CombinedURL_all_or_nothing:
  assumes "n \<in> set names" and "file_error (fileSystem st) n \<noteq> None"
  shows "\<exists>m \<in> set names. \<exists>err. file_error (fileSystem st) m = Some err \<and>
           CombinedURL st names = (([], Some err), st)"
proof -
  from loop_fails [OF assms] obtain err where
    l: "CombinedURL_loop (fileSystem st) names md5_New \<lparr>Content = [], ModTime = time_zero\<rparr> = Inl err"
    by blast
  from loop_Inl [OF l] obtain m where "m \<in> set names" "file_error (fileSystem st) m = Some err"
    by blast
  moreover have "CombinedURL st names = (([], Some err), st)"
    by (simp add: CombinedURL_def l)
  ultimately show ?thesis by blast
qed

theorem CombinedURL_all_or_nothing_witness:
  "''missing.js'' \<in> set [''a.js'', ''missing.js''] \<and>
   file_error (fileSystem example_state) ''missing.js'' \<noteq> None \<and>
   (\<exists>m \<in> set [''a.js'', ''missing.js'']. \<exists>err.
      file_error (fileSystem example_state) m = Some err \<and>
      CombinedURL example_state [''a.js'', ''missing.js''] = (([], Some err), example_state))"
proof -
  have mem: "''missing.js'' \<in> set [''a.js'', ''missing.js'']" by simp
  from mem example_missing CombinedURL_all_or_nothing [OF mem example_missing]
  show ?thesis by blast
qed

subsection \<open>The handler\<close>

text \<open>
  Claim C8. Frame property of the dispatcher: \<^verbatim>\<open>Handle\<close> leaves the package
  variables, so the cache table and every entry of it, unchanged for every request;
  a resolution call leaves the table as it was or stores one entry into it.
\<close>

theorem Handle_frame:
  "snd (Handle st r) = st \<and>
   (cache (snd (CombinedURL st names)) = cache st \<or>
    (\<exists>k ce. cache (snd (CombinedURL st names)) = (cache st)(k \<mapsto> ce)))"
proof
  show "snd (Handle st r) = st"
    by (simp add: Handle_def Let_def split: option.splits)
  show "cache (snd (CombinedURL st names)) = cache st \<or>
    (\<exists>k ce. cache (snd (CombinedURL st names)) = (cache st)(k \<mapsto> ce))"
    by (auto simp: CombinedURL_def Let_def split: sum.splits)
qed

lemma notFound_response:
  "notFound newResponseWriter r =
     \<lparr>Header = [''Cache-Control'' \<mapsto> ''no-cache'', ''Pragma'' \<mapsto> ''no-cache''],
      Status = 404, Body = ''static resource not found!''\<rparr>"
  by (simp add: notFound_def newResponseWriter_def Header_Set_def WriteHeader_def Write_def)

text \<open>
  Claim C4. Not-found behaviour: a request whose path does not start with the static
  prefix, or splits into fewer than three segments, or whose digest segment is not a key
  of the cache table, is answered with status 404, the headers
  \<^verbatim>\<open>Cache-Control: no-cache\<close> and \<^verbatim>\<open>Pragma: no-cache\<close>, and the body
  \<^verbatim>\<open>static resource not found!\<close>.
\<close>

theorem Handle_notFound:
  assumes "\<not> strings_HasPrefix (URL_Path r) Path \<or>
           length (strings_Split (URL_Path r) (CHR ''/'')) < 3 \<or>
           cache st (strings_Split (URL_Path r) (CHR ''/'') ! 2) = None"
  shows "Status (fst (Handle st r)) = 404 \<and>
         Header (fst (Handle st r)) ''Cache-Control'' = Some ''no-cache'' \<and>
         Header (fst (Handle st r)) ''Pragma'' = Some ''no-cache'' \<and>
         Body (fst (Handle st r)) = ''static resource not found!''"
proof -
  from assms have "fst (Handle st r) = notFound newResponseWriter r"
    by (auto simp: Handle_def Let_def)
  then show ?thesis by (simp add: notFound_response)
qed

theorem Handle_notFound_witness:
  "strings_HasPrefix ''/static/deadbeef00/app.css'' Path \<and>
   cache example_state (strings_Split ''/static/deadbeef00/app.css'' (CHR ''/'') ! 2) = None \<and>
   Status (fst (Handle example_state
     (GET ''/static/deadbeef00/app.css''))) = 404 \<and>
   Header (fst (Handle example_state
     (GET ''/static/deadbeef00/app.css'')))
     ''Cache-Control'' = Some ''no-cache'' \<and>
   Header (fst (Handle example_state
     (GET ''/static/deadbeef00/app.css'')))
     ''Pragma'' = Some ''no-cache'' \<and>
   Body (fst (Handle example_state
     (GET ''/static/deadbeef00/app.css'')))
     = ''static resource not found!'' \<and>
   \<not> strings_HasPrefix ''/assets/app.css'' Path \<and>
   Status (fst (Handle example_state
     (GET ''/assets/app.css''))) = 404"
proof -
  have c: "cache example_state = Map.empty" by (simp add: example_state_def)
  have p: "strings_HasPrefix ''/static/deadbeef00/app.css'' Path"
    and q: "\<not> strings_HasPrefix ''/assets/app.css'' Path"
    by (simp_all add: strings_HasPrefix_def Path_def)
  show ?thesis
    using p q
      Handle_notFound [of "GET ''/static/deadbeef00/app.css''" example_state]
      Handle_notFound [of "GET ''/assets/app.css''" example_state]
    by (simp add: c GET_def)
qed

subsection \<open>Resolutions\<close>

lemma path_Join_empty: "path_Join [Path, ''d41d8cd98f'', joinBasenames []] = ''/static/d41d8cd98f''"
  by code_simp

text \<open>
  Claim C10. The empty list: \<^verbatim>\<open>CombinedURL\<close> of no names returns no error; the URL is
  the static prefix with the digest \<^verbatim>\<open>d41d8cd98f\<close>, the first ten hex digits of the MD5
  sum of the empty byte string, and nothing after it, and the cache table gets an entry
  with empty content and the zero modification time under that digest.
\<close>

theorem CombinedURL_empty_list:
  "CombinedURL st [] =
     ((''/static/d41d8cd98f'', None),
      st\<lparr>cache := (cache st)(''d41d8cd98f'' \<mapsto> \<lparr>Content = [], ModTime = time_zero\<rparr>)\<rparr>)"
  by (simp add: CombinedURL_def Let_def md5_New_def md5_Sum_def md5_empty path_Join_empty)

text \<open>
  The digest that \<^verbatim>\<open>CombinedURL\<close> computes: for a file list that resolves, the
  digest that it hands to \<^verbatim>\<open>path.Join\<close> for the URL, after the static prefix and before the joined
  base names, is the first ten hexadecimal digits of the MD5 sum of the concatenation,
  in list order, of the files' full contents, and the cache entry, holding that
  concatenation, is stored under exactly that ten-character string.
\<close>

lemma CombinedURL_digest:
  assumes "names \<noteq> []" and "CombinedURL st names = ((url, None), st')"
  shows "url = path_Join [Path, digest_of (concat (file_contents (fileSystem st) names)),
                 joinBasenames names] \<and>
         length (digest_of (concat (file_contents (fileSystem st) names))) = 10 \<and>
         digest_of (concat (file_contents (fileSystem st) names)) =
           take 10 (fmt_x (md5_checksum (concat (file_contents (fileSystem st) names)))) \<and>
         (\<exists>ce. Content ce = concat (file_contents (fileSystem st) names) \<and>
               st' = st\<lparr>cache := (cache st)
                 (digest_of (concat (file_contents (fileSystem st) names)) \<mapsto> ce)\<rparr>)"
proof -
  from CombinedURL_success [OF assms(2)] obtain ce where
    "url = path_Join [Path, digest_of (concat (file_contents (fileSystem st) names)),
       joinBasenames names]"
    "st' = st\<lparr>cache := (cache st)
       (digest_of (concat (file_contents (fileSystem st) names)) \<mapsto> ce)\<rparr>"
    "Content ce = concat (file_contents (fileSystem st) names)"
    by blast
  moreover have "length (digest_of (concat (file_contents (fileSystem st) names))) = 10"
    using is_digest_digest_of by (simp add: is_digest_def)
  ultimately show ?thesis by (auto simp: digest_of_def)
qed

lemma CombinedURL_digest_scripts:
  "[''a.js'', ''js/b.js''] \<noteq> [] \<and>
   CombinedURL example_state [''a.js'', ''js/b.js''] =
     ((''/static/698d51a19d/a.js-b.js'', None), resolved_state) \<and>
   ''/static/698d51a19d/a.js-b.js'' =
     path_Join [Path, digest_of ''111'', joinBasenames [''a.js'', ''js/b.js'']] \<and>
   digest_of ''111'' = ''698d51a19d'' \<and>
   (\<exists>ce. Content ce = ''111'' \<and>
      resolved_state = example_state\<lparr>cache := (cache example_state)(digest_of ''111'' \<mapsto> ce)\<rparr>)"
proof -
  have ne: "[''a.js'', ''js/b.js''] \<noteq> []" by simp
  have d: "digest_of ''111'' = ''698d51a19d''" by (simp add: digest_of_def md5_111)
  have fc: "concat (file_contents (fileSystem example_state) [''a.js'', ''js/b.js'']) = ''111''"
    by (simp add: scripts_contents)
  from CombinedURL_digest [OF ne scripts_resolved]
  have "''/static/698d51a19d/a.js-b.js'' =
      path_Join [Path, digest_of ''111'', joinBasenames [''a.js'', ''js/b.js'']] \<and>
    (\<exists>ce. Content ce = ''111'' \<and>
      resolved_state = example_state\<lparr>cache := (cache example_state)(digest_of ''111'' \<mapsto> ce)\<rparr>)"
    unfolding fc by blast
  with ne scripts_resolved d show ?thesis by blast
qed

subsection \<open>Serving a resolved URL\<close>

lemma Split_Path_prefix:
  "strings_Split (Path @ s) (CHR ''/'') = [] # ''static'' # strings_Split s (CHR ''/'')"
proof -
  have "strings_Split (Path @ s) (CHR ''/'') =
      strings_Split ([] @ CHR ''/'' # (''static'' @ CHR ''/'' # s)) (CHR ''/'')"
    by (simp add: Path_def)
  also have "\<dots> = [] # ''static'' # strings_Split s (CHR ''/'')"
    unfolding strings_Split_append by simp
  finally show ?thesis .
qed

lemma HasPrefix_parts:
  assumes "strings_HasPrefix p Path"
  shows "3 \<le> length (strings_Split p (CHR ''/''))"
proof -
  from assms have "p = Path @ drop (length Path) p"
    by (metis append_take_drop_id strings_HasPrefix_def)
  then have "strings_Split p (CHR ''/'') = [] # ''static'' # strings_Split (drop (length Path) p) (CHR ''/'')"
    using Split_Path_prefix by metis
  then show ?thesis
    using strings_Split_nonempty [of "drop (length Path) p" "CHR ''/''"]
    by (cases "strings_Split (drop (length Path) p) (CHR ''/'')") simp_all
qed

lemma Handle_serves:
  assumes "strings_HasPrefix (URL_Path r) Path"
    and "cache st (strings_Split (URL_Path r) (CHR ''/'') ! 2) = Some ce"
  shows "fst (Handle st r) =
           http_ServeContent
             (Header_Set newResponseWriter ''Cache-Control''
                (''public, max-age='' @ fmt_d (cacheMaxAge st)))
             r (URL_Path r) (ModTime ce) (Content ce)"
  using assms HasPrefix_parts [OF assms(1)] by (simp add: Handle_def Let_def)

lemma checkPreconditions_unconditional:
  "unconditional r \<Longrightarrow> checkPreconditions r modtime = Serve None"
  by (simp add: unconditional_def checkPreconditions_def checkIfMatch_def
      checkIfUnmodifiedSince_def checkIfNoneMatch_def checkIfModifiedSince_def)

lemma ServeContent_GET:
  assumes "Method r = ''GET''" and "unconditional r"
  shows "http_ServeContent w r name modtime content = w\<lparr>Status := 200, Body := Body w @ content\<rparr>"
  using assms
  by (simp add: http_ServeContent_def checkPreconditions_unconditional parseRange_def
      send_content_def WriteHeader_def Write_def)

lemma url_of_digest:
  assumes "is_digest d" and "''..'' \<notin> set (strings_Split joined (CHR ''/''))"
  shows "strings_HasPrefix (path_Join [Path, d, joined]) Path \<and>
         strings_Split (path_Join [Path, d, joined]) (CHR ''/'') ! 2 = d"
proof -
  from is_digest_elem [OF assms(1)] have d: "CHR ''/'' \<notin> set d" by simp
  show ?thesis
    unfolding path_Join_url [OF assms] Split_url [OF d]
    by (simp add: HasPrefix_Path)
qed

text \<open>
  Claim C1, as amended. Round trip: for a file list that \<^verbatim>\<open>CombinedURL\<close> resolves and
  whose joined base names have no \<^verbatim>\<open>..\<close> path element, a GET request that carries
  none of the headers \<^verbatim>\<open>If-Match\<close>, \<^verbatim>\<open>If-Unmodified-Since\<close>, \<^verbatim>\<open>If-None-Match\<close>,
  \<^verbatim>\<open>If-Modified-Since\<close> and \<^verbatim>\<open>Range\<close>, and whose path is exactly the returned URL, is
  answered with status 200, the concatenated bytes that were hashed, and the header
  \<^verbatim>\<open>Cache-Control: public, max-age=N\<close> for the configured seconds \<open>N\<close>.
\<close>

theorem round_trip:
  assumes res: "CombinedURL st names = ((url, None), st')"
    and nd: "''..'' \<notin> set (strings_Split (joinBasenames names) (CHR ''/''))"
    and r: "URL_Path r = url" "Method r = ''GET''" "unconditional r"
  shows "Status (fst (Handle st' r)) = 200 \<and>
         Body (fst (Handle st' r)) = concat (file_contents (fileSystem st) names) \<and>
         Header (fst (Handle st' r)) ''Cache-Control'' =
           Some (''public, max-age='' @ fmt_d (cacheMaxAge st'))"
proof -
  let ?d = "digest_of (concat (file_contents (fileSystem st) names))"
  from CombinedURL_success [OF res] obtain ce where
    url: "url = path_Join [Path, ?d, joinBasenames names]"
    and st': "st' = st\<lparr>cache := (cache st)(?d \<mapsto> ce)\<rparr>"
    and ce: "Content ce = concat (file_contents (fileSystem st) names)"
    by blast
  from url_of_digest [OF is_digest_digest_of nd, of "concat (file_contents (fileSystem st) names)"]
  have pre: "strings_HasPrefix (URL_Path r) Path"
    and seg: "strings_Split (URL_Path r) (CHR ''/'') ! 2 = ?d"
    by (simp_all add: r(1) url)
  have look: "cache st' (strings_Split (URL_Path r) (CHR ''/'') ! 2) = Some ce"
    by (simp add: seg st')
  show ?thesis
    unfolding Handle_serves [OF pre look] ServeContent_GET [OF r(2) r(3)]
    by (simp add: Header_Set_def newResponseWriter_def ce)
qed

theorem round_trip_witness:
  "CombinedURL example_state [''a.js'', ''js/b.js''] =
     ((''/static/698d51a19d/a.js-b.js'', None), resolved_state) \<and>
   ''..'' \<notin> set (strings_Split (joinBasenames [''a.js'', ''js/b.js'']) (CHR ''/'')) \<and>
   URL_Path scripts_request = ''/static/698d51a19d/a.js-b.js'' \<and>
   Method scripts_request = ''GET'' \<and>
   unconditional scripts_request \<and>
   Status (fst (Handle resolved_state scripts_request)) = 200 \<and>
   Body (fst (Handle resolved_state scripts_request)) = ''111'' \<and>
   Header (fst (Handle resolved_state scripts_request)) ''Cache-Control'' =
     Some ''public, max-age=315568800''"
proof -
  have r: "URL_Path scripts_request = ''/static/698d51a19d/a.js-b.js''"
    "Method scripts_request = ''GET''" "unconditional scripts_request"
    by (simp_all add: scripts_request_def GET_def unconditional_def)
  have age: "cacheMaxAge resolved_state = default_cacheMaxAge"
    by (simp add: resolved_state_def example_state_def)
  have fc: "concat (file_contents (fileSystem example_state) [''a.js'', ''js/b.js'']) = ''111''"
    by (simp add: scripts_contents)
  from round_trip [OF scripts_resolved scripts_no_dotdot r]
  have "Status (fst (Handle resolved_state scripts_request)) = 200 \<and>
    Body (fst (Handle resolved_state scripts_request)) = ''111'' \<and>
    Header (fst (Handle resolved_state scripts_request)) ''Cache-Control'' =
      Some ''public, max-age=315568800''"
    unfolding fc age max_age_default by simp
  with scripts_resolved scripts_no_dotdot r show ?thesis by blast
qed

text \<open>
  As the claim was stated, for every request with the returned path, it fails: the
  handler serves through \<^verbatim>\<open>http.ServeContent\<close>, which answers a conditional GET
  for unmodified content with 304 and no body, and a GET for a range of the bytes with
  206 and that range.
\<close>

lemma conditional_response:
  "Status (fst (Handle resolved_state conditional_request)) = 304 \<and>
   Body (fst (Handle resolved_state conditional_request)) = []"
  by code_simp

lemma range_response:
  "Status (fst (Handle resolved_state range_request)) = 206 \<and>
   Body (fst (Handle resolved_state range_request)) = ''1''"
  by code_simp

theorem round_trip_counterexample:
  "CombinedURL example_state [''a.js'', ''js/b.js''] =
     ((''/static/698d51a19d/a.js-b.js'', None), resolved_state) \<and>
   URL_Path conditional_request = ''/static/698d51a19d/a.js-b.js'' \<and>
   Status (fst (Handle resolved_state conditional_request)) = 304 \<and>
   Body (fst (Handle resolved_state conditional_request)) = [] \<and>
   URL_Path range_request = ''/static/698d51a19d/a.js-b.js'' \<and>
   Method range_request = ''GET'' \<and>
   IfModifiedSince range_request = None \<and>
   Status (fst (Handle resolved_state range_request)) = 206 \<and>
   Body (fst (Handle resolved_state range_request)) = ''1'' \<and>
   concat (file_contents (fileSystem example_state) [''a.js'', ''js/b.js'']) = ''111''"
  using scripts_resolved conditional_response range_response
  by (simp add: conditional_request_def range_request_def scripts_request_def GET_def
      scripts_contents)

subsection \<open>The path segments after the digest\<close>

text \<open>
  Claim C9, as amended. In the cache-backed package the trailing segments are cosmetic:
  two requests that differ only in their paths, both with the static prefix and the same
  digest segment, get the same status, the same body and the same headers of the
  package; what is served is decided by the digest segment and the cache table alone.
\<close>







subsection \<open>The order of the names\<close>

lemma reversed_loop:
  "CombinedURL_loop (fileSystem example_state) [''js/b.js'', ''a.js''] md5_New
     \<lparr>Content = [], ModTime = time_zero\<rparr> = Inr (''111'', scripts_entry)"
  by code_simp

lemma reversed_url:
  "path_Join [Path, ''698d51a19d'', joinBasenames [''js/b.js'', ''a.js'']] = ''/static/698d51a19d/b.js-a.js''"
  by code_simp

lemma reversed_resolved:
  "CombinedURL example_state [''js/b.js'', ''a.js''] =
     ((''/static/698d51a19d/b.js-a.js'', None), resolved_state)"
proof -
  have c: "cache example_state = Map.empty" by (simp add: example_state_def)
  show ?thesis
    unfolding CombinedURL_def reversed_loop
    by (simp add: md5_Sum_def md5_111 reversed_url resolved_state_def c)
qed

lemma script_contents:
  "file_contents (fileSystem example_state) [''a.js''] = [''1'']"
  "file_contents (fileSystem example_state) [''js/b.js''] = [''11'']"
  by code_simp+

text \<open>
  Claim C5, as amended. Order of the names: resolving \<open>[a, b]\<close> puts into the URL the
  digest of the content of \<open>a\<close> followed by the content of \<open>b\<close>, resolving
  \<open>[b, a]\<close> the digest of the content of \<open>b\<close> followed by the content of \<open>a\<close>;
  whenever the two concatenations are the same bytes the two digests are the same.
\<close>

theorem order_of_names:
  assumes "CombinedURL st [a, b] = ((url_ab, None), st_ab)"
    and "CombinedURL st [b, a] = ((url_ba, None), st_ba)"
  shows "url_ab = path_Join [Path,
             digest_of (concat (file_contents (fileSystem st) [a]) @
                        concat (file_contents (fileSystem st) [b])),
             joinBasenames [a, b]] \<and>
         url_ba = path_Join [Path,
             digest_of (concat (file_contents (fileSystem st) [b]) @
                        concat (file_contents (fileSystem st) [a])),
             joinBasenames [b, a]] \<and>
         (concat (file_contents (fileSystem st) [a]) @ concat (file_contents (fileSystem st) [b]) =
          concat (file_contents (fileSystem st) [b]) @ concat (file_contents (fileSystem st) [a]) \<longrightarrow>
          digest_of (concat (file_contents (fileSystem st) [a]) @
                     concat (file_contents (fileSystem st) [b])) =
          digest_of (concat (file_contents (fileSystem st) [b]) @
                     concat (file_contents (fileSystem st) [a])))"
proof -
  have ab: "concat (file_contents (fileSystem st) [a, b]) =
      concat (file_contents (fileSystem st) [a]) @ concat (file_contents (fileSystem st) [b])"
    and ba: "concat (file_contents (fileSystem st) [b, a]) =
      concat (file_contents (fileSystem st) [b]) @ concat (file_contents (fileSystem st) [a])"
    by (simp_all add: file_contents_def)
  from CombinedURL_success [OF assms(1)] CombinedURL_success [OF assms(2)]
  show ?thesis unfolding ab ba by auto
qed

theorem order_of_names_witness:
  "CombinedURL example_state [''a.js'', ''js/b.js''] =
     ((''/static/698d51a19d/a.js-b.js'', None), resolved_state) \<and>
   CombinedURL example_state [''js/b.js'', ''a.js''] =
     ((''/static/698d51a19d/b.js-a.js'', None), resolved_state) \<and>
   ''/static/698d51a19d/a.js-b.js'' =
     path_Join [Path, digest_of (''1'' @ ''11''), joinBasenames [''a.js'', ''js/b.js'']] \<and>
   ''/static/698d51a19d/b.js-a.js'' =
     path_Join [Path, digest_of (''11'' @ ''1''), joinBasenames [''js/b.js'', ''a.js'']] \<and>
   ''1'' @ ''11'' = ''11'' @ ''1'' \<and>
   digest_of (''1'' @ ''11'') = digest_of (''11'' @ ''1'')"
proof -
  have a: "concat (file_contents (fileSystem example_state) [''a.js'']) = ''1''"
    and b: "concat (file_contents (fileSystem example_state) [''js/b.js'']) = ''11''"
    by (simp_all add: script_contents)
  have eq: "''1'' @ ''11'' = ''11'' @ ''1''" by simp
  from order_of_names [OF scripts_resolved reversed_resolved]
  have "''/static/698d51a19d/a.js-b.js'' =
      path_Join [Path, digest_of (''1'' @ ''11''), joinBasenames [''a.js'', ''js/b.js'']] \<and>
    ''/static/698d51a19d/b.js-a.js'' =
      path_Join [Path, digest_of (''11'' @ ''1''), joinBasenames [''js/b.js'', ''a.js'']] \<and>
    (''1'' @ ''11'' = ''11'' @ ''1'' \<longrightarrow> digest_of (''1'' @ ''11'') = digest_of (''11'' @ ''1''))"
    unfolding a b .
  with eq scripts_resolved reversed_resolved show ?thesis by blast
qed

text \<open>
  As the claim was stated, with contents that merely differ, it fails: the contents
  \<^verbatim>\<open>1\<close> and \<^verbatim>\<open>11\<close> differ and give the same bytes in both orders.
\<close>

lemma digest_segments:
  "strings_Split ''/static/698d51a19d/a.js-b.js'' (CHR ''/'') ! 2 = ''698d51a19d''"
  "strings_Split ''/static/698d51a19d/b.js-a.js'' (CHR ''/'') ! 2 = ''698d51a19d''"
  by code_simp+

theorem order_of_names_counterexample:
  "file_contents (fileSystem example_state) [''a.js''] = [''1''] \<and>
   file_contents (fileSystem example_state) [''js/b.js''] = [''11''] \<and>
   fst (CombinedURL example_state [''a.js'', ''js/b.js'']) = (''/static/698d51a19d/a.js-b.js'', None) \<and>
   fst (CombinedURL example_state [''js/b.js'', ''a.js'']) = (''/static/698d51a19d/b.js-a.js'', None) \<and>
   strings_Split ''/static/698d51a19d/a.js-b.js'' (CHR ''/'') ! 2 = ''698d51a19d'' \<and>
   strings_Split ''/static/698d51a19d/b.js-a.js'' (CHR ''/'') ! 2 = ''698d51a19d''"
  using script_contents digest_segments by (simp add: scripts_resolved reversed_resolved)

subsection \<open>The shape of the URL\<close>

text \<open>The base name of an ordinary name is its last element: the directories are stripped.\<close>

lemma filepath_Base_plain:
  assumes "CHR ''/'' \<notin> set b" and "b \<noteq> []"
  shows "filepath_Base b = b"
proof -
  from assms have l: "last b \<noteq> CHR ''/''" by (metis last_in_set)
  have dw: "dropWhile (\<lambda>c. c = CHR ''/'') (rev b) = rev b"
    using assms l by (cases "rev b") (auto simp: hd_rev)
  have tw: "takeWhile (\<lambda>c. c \<noteq> CHR ''/'') (rev b) = rev b"
    using assms by auto
  show ?thesis using assms by (simp add: filepath_Base_def dw tw)
qed

lemma filepath_Base_strips:
  assumes "CHR ''/'' \<notin> set b" and "b \<noteq> []"
  shows "filepath_Base (dir @ CHR ''/'' # b) = b"
proof -
  from assms have l: "last b \<noteq> CHR ''/''" by (metis last_in_set)
  have r: "rev (dir @ CHR ''/'' # b) = rev b @ CHR ''/'' # rev dir" by simp
  have dw: "dropWhile (\<lambda>c. c = CHR ''/'') (rev b @ CHR ''/'' # rev dir) = rev b @ CHR ''/'' # rev dir"
    using assms l by (cases "rev b") (auto simp: hd_rev)
  have tw: "takeWhile (\<lambda>c. c \<noteq> CHR ''/'') (rev b @ CHR ''/'' # rev dir) = rev b"
    using assms by (auto simp: takeWhile_tail)
  show ?thesis using assms unfolding filepath_Base_def r by (simp add: dw tw)
qed

text \<open>
  Claim C6, as amended. URL shape in the cache-backed package: for a file list that
  resolves and whose hyphen-joined base names are one ordinary path element (not empty,
  without a slash, neither \<^verbatim>\<open>.\<close> nor \<^verbatim>\<open>..\<close>), the URL is the static prefix, the
  ten-character digest, a slash, and the base names of the inputs, in list order, joined
  by hyphens.
\<close>

theorem URL_shape:
  assumes "CombinedURL st names = ((url, None), st')"
    and "joinBasenames names \<noteq> []" and "CHR ''/'' \<notin> set (joinBasenames names)"
    and "joinBasenames names \<noteq> ''.''" and "joinBasenames names \<noteq> ''..''"
  shows "url = Path @ digest_of (concat (file_contents (fileSystem st) names)) @ ''/'' @
               strings_Join (map filepath_Base names) ''-'' \<and>
         length (digest_of (concat (file_contents (fileSystem st) names))) = 10"
proof -
  let ?j = "joinBasenames names"
  have sp: "strings_Split ?j (CHR ''/'') = [?j]"
    by (rule strings_Split_no_sep [OF assms(3)])
  have nd: "''..'' \<notin> set (strings_Split ?j (CHR ''/''))"
    using assms(5) by (simp add: sp)
  from CombinedURL_success [OF assms(1)]
  have "url = path_Join [Path, digest_of (concat (file_contents (fileSystem st) names)), ?j]"
    by blast
  also have "\<dots> = Path @ digest_of (concat (file_contents (fileSystem st) names)) @
      concat (map ((#) (CHR ''/'')) (filter (\<lambda>e. e \<noteq> [] \<and> e \<noteq> ''.'') (strings_Split ?j (CHR ''/''))))"
    by (rule path_Join_url [OF is_digest_digest_of nd])
  also have "\<dots> = Path @ digest_of (concat (file_contents (fileSystem st) names)) @ ''/'' @ ?j"
    using assms(2,4) by (simp add: sp)
  finally show ?thesis
    using is_digest_digest_of [of "concat (file_contents (fileSystem st) names)"]
    by (simp add: joinBasenames_def is_digest_def)
qed

lemma scripts_join: "joinBasenames [''a.js'', ''js/b.js''] = ''a.js-b.js''"
  by code_simp

theorem URL_shape_witness:
  "CombinedURL example_state [''a.js'', ''js/b.js''] =
     ((''/static/698d51a19d/a.js-b.js'', None), resolved_state) \<and>
   joinBasenames [''a.js'', ''js/b.js''] \<noteq> [] \<and>
   CHR ''/'' \<notin> set (joinBasenames [''a.js'', ''js/b.js'']) \<and>
   joinBasenames [''a.js'', ''js/b.js''] \<noteq> ''.'' \<and>
   joinBasenames [''a.js'', ''js/b.js''] \<noteq> ''..'' \<and>
   ''/static/698d51a19d/a.js-b.js'' =
     Path @ digest_of ''111'' @ ''/'' @ strings_Join (map filepath_Base [''a.js'', ''js/b.js'']) ''-'' \<and>
   length (digest_of ''111'') = 10"
proof -
  have h: "joinBasenames [''a.js'', ''js/b.js''] \<noteq> []"
    "CHR ''/'' \<notin> set (joinBasenames [''a.js'', ''js/b.js''])"
    "joinBasenames [''a.js'', ''js/b.js''] \<noteq> ''.''"
    "joinBasenames [''a.js'', ''js/b.js''] \<noteq> ''..''"
    by (simp_all add: scripts_join)
  have fc: "concat (file_contents (fileSystem example_state) [''a.js'', ''js/b.js'']) = ''111''"
    by (simp add: scripts_contents)
  from URL_shape [OF scripts_resolved h]
  have "''/static/698d51a19d/a.js-b.js'' =
      Path @ digest_of ''111'' @ ''/'' @ strings_Join (map filepath_Base [''a.js'', ''js/b.js'']) ''-'' \<and>
    length (digest_of ''111'') = 10"
    unfolding fc .
  with scripts_resolved h show ?thesis by blast
qed

text \<open>
  A name that ends in \<^verbatim>\<open>..\<close> can still open a regular file, since
  \<^verbatim>\<open>http.Dir\<close> cleans the name; its base name is \<^verbatim>\<open>..\<close>, and
  \<^verbatim>\<open>path.Join\<close> then folds the digest away. The URL returned is not served.
\<close>

lemma path_Join_dotdot:
  assumes "is_digest d"
  shows "path_Join [Path, d, ''..''] = ''/static''"
proof -
  from is_digest_elem [OF assms] have d1: "CHR ''/'' \<notin> set d" and d2: "d \<noteq> []" and d3: "d \<noteq> ''.''"
    and d4: "d \<noteq> ''..''" by simp_all
  let ?p = "''/static/'' @ CHR ''/'' # d @ CHR ''/'' # ''..''"
  have sp: "strings_Split ?p (CHR ''/'') = [[], ''static'', [], d, ''..'']"
    using strings_Split_append [of d "CHR ''/''" "''..''"] by (simp add: strings_Split_no_sep [OF d1])
  have ce: "clean_elems True [] 0 (strings_Split ?p (CHR ''/'')) = [''static'']"
    unfolding sp using d2 d3 d4 by simp
  have "path_Join [Path, d, ''..''] = path_Clean ?p"
    by (simp add: path_Join_def Path_def)
  also have "\<dots> = CHR ''/'' # strings_Join (clean_elems True [] 0 (strings_Split ?p (CHR ''/''))) ''/''"
    by (simp add: path_Clean_def)
  also have "\<dots> = ''/static''"
    by (simp only: ce strings_Join.simps)
  finally show ?thesis .
qed

lemma dotdot_name:
  "file_error (fileSystem example_state) ''a.js/x/..'' = None"
  "joinBasenames [''a.js/x/..''] = ''..''"
  by code_simp+

lemma dotdot_resolved: "fst (CombinedURL example_state [''a.js/x/..'']) = (''/static'', None)"
proof -
  have "\<forall>n \<in> set [''a.js/x/..'']. file_error (fileSystem example_state) n = None"
    by (simp add: dotdot_name)
  from CombinedURL_succeeds [OF this] obtain url st' where
    r: "CombinedURL example_state [''a.js/x/..''] = ((url, None), st')" by blast
  from CombinedURL_success [OF r] have "url = ''/static''"
    by (auto simp: dotdot_name path_Join_dotdot [OF is_digest_digest_of])
  with r show ?thesis by simp
qed

lemma dotdot_not_served: "Status (fst (Handle st (r\<lparr>URL_Path := ''/static''\<rparr>))) = 404"
  by (simp add: Handle_def strings_HasPrefix_def Path_def notFound_response)

lemma app_css_open: "fileSystem example_state ''css/app.css'' = Inr app_css"
  by code_simp

lemma app_css_url: "path_Join [Path, ''79f9fce560'', ''css/app.css''] = ''/static/79f9fce560/css/app.css''"
  by code_simp

lemma app_css_nocache:
  "URL_nocache example_state ''css/app.css'' = (''/static/79f9fce560/css/app.css'', None)"
  by (simp add: URL_nocache_def app_css_open app_css_def md5_New_def md5_Write_def md5_Sum_def
      md5_app_css app_css_url)

text \<open>
  As the claim was stated, for every list and both variants, it fails: the cache-less
  \<^verbatim>\<open>URL\<close> keeps the directory of the name, and \<^verbatim>\<open>CombinedURL\<close> of a name ending
  in \<^verbatim>\<open>..\<close> returns the bare \<^verbatim>\<open>/static\<close>.
\<close>

theorem URL_shape_counterexample:
  "URL_nocache example_state ''css/app.css'' = (''/static/79f9fce560/css/app.css'', None) \<and>
   Path @ ''79f9fce560'' @ ''/'' @ strings_Join (map filepath_Base [''css/app.css'']) ''-'' =
     ''/static/79f9fce560/app.css'' \<and>
   file_error (fileSystem example_state) ''a.js/x/..'' = None \<and>
   fst (CombinedURL example_state [''a.js/x/..'']) = (''/static'', None)"
proof -
  have "Path @ ''79f9fce560'' @ ''/'' @ strings_Join (map filepath_Base [''css/app.css'']) ''-'' =
     ''/static/79f9fce560/app.css''"
    by code_simp
  with app_css_nocache dotdot_name(1) dotdot_resolved show ?thesis by blast
qed

subsection \<open>Content addressing\<close>

lemma cache_addressed_empty: "cache_addressed Map.empty"
  by (simp add: cache_addressed_def)

lemma cache_addressed_CombinedURL:
  assumes "cache_addressed (cache st)"
  shows "cache_addressed (cache (snd (CombinedURL st names)))"
proof (cases "snd (fst (CombinedURL st names))")
  case None
  then obtain url where "CombinedURL st names = ((url, None), snd (CombinedURL st names))"
    by (metis prod.collapse)
  from CombinedURL_success [OF this] obtain ce where
    st': "snd (CombinedURL st names) = st\<lparr>cache := (cache st)
       (digest_of (concat (file_contents (fileSystem st) names)) \<mapsto> ce)\<rparr>"
    and ce: "Content ce = concat (file_contents (fileSystem st) names)"
    by blast
  show ?thesis
    unfolding st' using assms ce by (auto simp: cache_addressed_def)
next
  case (Some err)
  then have "snd (CombinedURL st names) = st"
    by (auto simp: CombinedURL_def Let_def split: sum.splits)
  with assms show ?thesis by simp
qed

lemma Handle_state: "snd (Handle st r) = st"
  by (simp add: Handle_def Let_def split: option.splits)

lemma reachable_addressed: "reachable st \<Longrightarrow> cache_addressed (cache st)"
proof (induction rule: reachable.induct)
  case (start st)
  then show ?case by (simp add: cache_addressed_empty)
next
  case (resolve st names)
  from resolve.IH show ?case by (rule cache_addressed_CombinedURL)
next
  case (request st r)
  then show ?case by (simp add: Handle_state)
next
  case (files st fs)
  then show ?case by simp
qed

lemma ServeContent_200:
  assumes "Status (http_ServeContent w r name modtime content) = 200"
    and "Body w = []"
  shows "Body (http_ServeContent w r name modtime content) =
           (if Method r = ''HEAD'' then [] else content)"
proof (cases "checkPreconditions r modtime")
  case (Done code)
  have "code = 412 \<or> code = 304"
    using Done by (auto simp: checkPreconditions_def Let_def split: condResult.splits if_splits)
  with assms(1) Done show ?thesis
    by (auto simp: http_ServeContent_def WriteHeader_def)
next
  case (Serve rangeReq)
  show ?thesis
  proof (cases "parseRange rangeReq (length content)")
    case (Inl err)
    with assms Serve show ?thesis
      by (auto simp: http_ServeContent_def send_content_def serveError_def WriteHeader_def
          Write_def Header_Del_def split: if_splits)
  next
    case (Inr ra)
    with assms Serve show ?thesis
      by (cases ra)
         (auto simp: http_ServeContent_def send_content_def WriteHeader_def Write_def)
  qed
qed

lemma Handle_200:
  assumes "Status (fst (Handle st r)) = 200"
  shows "\<exists>ce. cache st (strings_Split (URL_Path r) (CHR ''/'') ! 2) = Some ce \<and>
           Body (fst (Handle st r)) = (if Method r = ''HEAD'' then [] else Content ce)"
proof (cases "strings_HasPrefix (URL_Path r) Path")
  case False
  with assms show ?thesis by (simp add: Handle_def notFound_response)
next
  case True
  show ?thesis
  proof (cases "cache st (strings_Split (URL_Path r) (CHR ''/'') ! 2)")
    case None
    with assms True show ?thesis
      by (auto simp: Handle_def Let_def notFound_response split: if_splits)
  next
    case (Some ce)
    have st: "Status (http_ServeContent
        (Header_Set newResponseWriter ''Cache-Control''
           (''public, max-age='' @ fmt_d (cacheMaxAge st)))
        r (URL_Path r) (ModTime ce) (Content ce)) = 200"
      using assms unfolding Handle_serves [OF True Some] .
    have emp: "Body (Header_Set newResponseWriter ''Cache-Control''
        (''public, max-age='' @ fmt_d (cacheMaxAge st))) = []"
      by (simp add: Header_Set_def newResponseWriter_def)
    from ServeContent_200 [OF st emp] show ?thesis
      by (simp add: Some Handle_serves [OF True Some])
  qed
qed

lemma Handle_fileSystem: "fst (Handle (st\<lparr>fileSystem := fs\<rparr>) r) = fst (Handle st r)"
  by (simp add: Handle_def Let_def split: option.splits)

text \<open>
  Claim C2, as amended. Content addressing in the cache-backed package: in every state
  the program can reach by resolutions, requests and changes of the files, a response
  with status 200 to a request other than HEAD has a body whose digest, the first ten
  hex digits of its MD5 sum, is the digest segment of the requested path, and the
  response does not depend on the files as they are now.
\<close>

theorem content_addressing:
  assumes "reachable st" and "Status (fst (Handle st r)) = 200" and "Method r \<noteq> ''HEAD''"
  shows "digest_of (Body (fst (Handle st r))) = strings_Split (URL_Path r) (CHR ''/'') ! 2 \<and>
         fst (Handle (st\<lparr>fileSystem := fs\<rparr>) r) = fst (Handle st r)"
proof -
  from Handle_200 [OF assms(2)] assms(3) obtain ce where
    look: "cache st (strings_Split (URL_Path r) (CHR ''/'') ! 2) = Some ce"
    and body: "Body (fst (Handle st r)) = Content ce"
    by auto
  from reachable_addressed [OF assms(1)] look
  have "strings_Split (URL_Path r) (CHR ''/'') ! 2 = digest_of (Content ce)"
    by (simp add: cache_addressed_def)
  with body show ?thesis by (simp add: Handle_fileSystem)
qed

lemma reachable_resolved: "reachable resolved_state"
proof -
  have "reachable example_state"
    by (rule reachable.start) (simp add: example_state_def)
  from reachable.resolve [OF this, of "[''a.js'', ''js/b.js'']"] show ?thesis
    by (simp add: scripts_resolved)
qed

lemma scripts_response:
  "Status (fst (Handle resolved_state scripts_request)) = 200"
  "Body (fst (Handle resolved_state scripts_request)) = ''111''"
  "strings_Split (URL_Path scripts_request) (CHR ''/'') ! 2 = ''698d51a19d''"
  "Method scripts_request \<noteq> ''HEAD''"
  by code_simp+

theorem content_addressing_witness:
  "reachable (resolved_state\<lparr>fileSystem := http_Dir changed_files\<rparr>) \<and>
   Status (fst (Handle (resolved_state\<lparr>fileSystem := http_Dir changed_files\<rparr>) scripts_request)) = 200 \<and>
   Method scripts_request \<noteq> ''HEAD'' \<and>
   digest_of (Body (fst (Handle (resolved_state\<lparr>fileSystem := http_Dir changed_files\<rparr>) scripts_request))) =
     strings_Split (URL_Path scripts_request) (CHR ''/'') ! 2 \<and>
   fst (Handle (resolved_state\<lparr>fileSystem := http_Dir changed_files\<rparr>\<lparr>fileSystem := http_Dir example_files\<rparr>)
     scripts_request) =
     fst (Handle (resolved_state\<lparr>fileSystem := http_Dir changed_files\<rparr>) scripts_request)"
proof -
  have r: "reachable (resolved_state\<lparr>fileSystem := http_Dir changed_files\<rparr>)"
    by (rule reachable.files [OF reachable_resolved])
  have s: "Status (fst (Handle (resolved_state\<lparr>fileSystem := http_Dir changed_files\<rparr>) scripts_request)) = 200"
    by (simp add: Handle_fileSystem scripts_response)
  from r s scripts_response(4) content_addressing [OF r s scripts_response(4), of "http_Dir example_files"]
  show ?thesis by blast
qed

lemma stylesheet_loop:
  "CombinedURL_loop (fileSystem example_state) [''css/app.css''] md5_New
     \<lparr>Content = [], ModTime = time_zero\<rparr> =
   Inr (''body{color:#0812b0}'',
        \<lparr>Content = ''body{color:#0812b0}'', ModTime = 63900000000000000000\<rparr>)"
  by code_simp

lemma restyled_loop:
  "CombinedURL_loop (http_Dir changed_files) [''css/app.css''] md5_New
     \<lparr>Content = [], ModTime = time_zero\<rparr> =
   Inr (''body{color:#0a8406}'',
        \<lparr>Content = ''body{color:#0a8406}'', ModTime = 63900000300000000000\<rparr>)"
  by code_simp

lemma stylesheet_url:
  "path_Join [Path, ''79f9fce560'', joinBasenames [''css/app.css'']] = ''/static/79f9fce560/app.css''"
  by code_simp

lemma stylesheet_resolved:
  "CombinedURL example_state [''css/app.css''] =
     ((''/static/79f9fce560/app.css'', None), stylesheet_state)"
proof -
  have c: "cache example_state = Map.empty" by (simp add: example_state_def)
  show ?thesis
    unfolding CombinedURL_def stylesheet_loop
    by (simp add: md5_Sum_def md5_app_css stylesheet_url stylesheet_state_def c)
qed

lemma restyled_resolved:
  "CombinedURL (stylesheet_state\<lparr>fileSystem := http_Dir changed_files\<rparr>) [''css/app.css''] =
     ((''/static/79f9fce560/app.css'', None), restyled_state)"
proof -
  have f: "fileSystem (stylesheet_state\<lparr>fileSystem := http_Dir changed_files\<rparr>) = http_Dir changed_files"
    by simp
  show ?thesis
    unfolding CombinedURL_def f restyled_loop
    by (simp add: md5_Sum_def md5_app_css_changed stylesheet_url stylesheet_state_def
        restyled_state_def changed_state_def example_state_def)
qed

lemma stylesheet_served:
  "Body (fst (Handle stylesheet_state stylesheet_request)) = ''body{color:#0812b0}''"
  "Body (fst (Handle restyled_state stylesheet_request)) = ''body{color:#0a8406}''"
  "Body (Handle_nocache changed_state
     (GET ''/static/79f9fce560/css/app.css''))
     = ''body{color:#0a8406}''"
  by code_simp+

text \<open>
  The bytes that were hashed are served for their URL for as long as the entry under
  their digest is the one the resolution stored, whatever else has changed.
\<close>

lemma served_until_overwritten:
  assumes res: "CombinedURL st names = ((url, None), st1)"
    and nd: "''..'' \<notin> set (strings_Split (joinBasenames names) (CHR ''/''))"
    and same: "cache st2 (digest_of (concat (file_contents (fileSystem st) names))) =
               cache st1 (digest_of (concat (file_contents (fileSystem st) names)))"
    and r: "URL_Path r = url" "Method r = ''GET''" "unconditional r"
  shows "Status (fst (Handle st2 r)) = 200 \<and>
         Body (fst (Handle st2 r)) = concat (file_contents (fileSystem st) names)"
proof -
  let ?d = "digest_of (concat (file_contents (fileSystem st) names))"
  from CombinedURL_success [OF res] obtain ce where
    url: "url = path_Join [Path, ?d, joinBasenames names]"
    and st1: "st1 = st\<lparr>cache := (cache st)(?d \<mapsto> ce)\<rparr>"
    and ce: "Content ce = concat (file_contents (fileSystem st) names)"
    by blast
  from url_of_digest [OF is_digest_digest_of nd, of "concat (file_contents (fileSystem st) names)"]
  have pre: "strings_HasPrefix (URL_Path r) Path"
    and seg: "strings_Split (URL_Path r) (CHR ''/'') ! 2 = ?d"
    by (simp_all add: r(1) url)
  have look: "cache st2 (strings_Split (URL_Path r) (CHR ''/'') ! 2) = Some ce"
    by (simp add: seg same st1)
  show ?thesis
    unfolding Handle_serves [OF pre look] ServeContent_GET [OF r(2) r(3)]
    by (simp add: Header_Set_def newResponseWriter_def ce)
qed

text \<open>
  As the claim was stated, byte-identical content at any later time, it fails in both
  variants. The cache-less handler reads the file at request time, so it serves the
  edited stylesheet for the URL of the old one. In the cache-backed package the MD5 sums
  of the two stylesheets start with the same ten hex digits: resolving the edited file
  replaces the entry, and the same URL is then served with the other bytes.
\<close>

theorem content_addressing_counterexample:
  "URL_nocache example_state ''css/app.css'' = (''/static/79f9fce560/css/app.css'', None) \<and>
   Body (Handle_nocache changed_state
     (GET ''/static/79f9fce560/css/app.css''))
     = ''body{color:#0a8406}'' \<and>
   CombinedURL example_state [''css/app.css''] =
     ((''/static/79f9fce560/app.css'', None), stylesheet_state) \<and>
   Body (fst (Handle stylesheet_state stylesheet_request)) = ''body{color:#0812b0}'' \<and>
   CombinedURL (stylesheet_state\<lparr>fileSystem := http_Dir changed_files\<rparr>) [''css/app.css''] =
     ((''/static/79f9fce560/app.css'', None), restyled_state) \<and>
   Body (fst (Handle restyled_state stylesheet_request)) = ''body{color:#0a8406}''"
  using app_css_nocache stylesheet_served stylesheet_resolved restyled_resolved by blast

subsection \<open>The digest segment of the URL\<close>

text \<open>
  When the joined base names have no \<^verbatim>\<open>..\<close> element, the digest is the third segment
  of the URL returned, the one that \<^verbatim>\<open>Handle\<close> looks up.
\<close>

lemma CombinedURL_digest_segment:
  assumes "CombinedURL st names = ((url, None), st')"
    and "''..'' \<notin> set (strings_Split (joinBasenames names) (CHR ''/''))"
  shows "strings_HasPrefix url Path \<and>
         strings_Split url (CHR ''/'') ! 2 =
           digest_of (concat (file_contents (fileSystem st) names))"
proof -
  from CombinedURL_success [OF assms(1)]
  have "url = path_Join [Path, digest_of (concat (file_contents (fileSystem st) names)),
      joinBasenames names]"
    by blast
  with url_of_digest [OF is_digest_digest_of assms(2)] show ?thesis by simp
qed

lemma md5_1: "fmt_x (md5_checksum ''1'') = ''c4ca4238a0b923820dcc509a6f75849b''"
  by code_simp

lemma dotdot_loop:
  "CombinedURL_loop (fileSystem example_state) [''a.js/x/..''] md5_New
     \<lparr>Content = [], ModTime = time_zero\<rparr> =
   Inr (''1'', \<lparr>Content = ''1'', ModTime = 63900000001000000000\<rparr>)"
  by code_simp

lemma dotdot_url:
  "path_Join [Path, ''c4ca4238a0'', joinBasenames [''a.js/x/..'']] = ''/static''"
  by code_simp

lemma dotdot_contents:
  "concat (file_contents (fileSystem example_state) [''a.js/x/..'']) = ''1''"
  "strings_Split ''/static'' (CHR ''/'') = [[], ''static'']"
  by code_simp+

text \<open>
  Claim C3. Digest computation: the digest segment of the URL that \<^verbatim>\<open>CombinedURL\<close>
  returns should be the first ten hex digits of the MD5 sum of the concatenated
  contents, under which the cache entry is stored. For the one-name list
  \<^verbatim>\<open>a.js/x/..\<close>, which opens the script \<^verbatim>\<open>a.js\<close>, the resolution succeeds and the
  entry is stored under that digest, \<^verbatim>\<open>c4ca4238a0\<close>, but the URL returned is
  \<^verbatim>\<open>/static\<close>: it has two segments and no digest.
\<close>

theorem digest_segment_lost:
  "[''a.js/x/..''] \<noteq> [] \<and>
   CombinedURL example_state [''a.js/x/..''] =
     ((''/static'', None),
      example_state\<lparr>cache := [''c4ca4238a0'' \<mapsto>
        \<lparr>Content = ''1'', ModTime = 63900000001000000000\<rparr>]\<rparr>) \<and>
   digest_of (concat (file_contents (fileSystem example_state) [''a.js/x/..''])) = ''c4ca4238a0'' \<and>
   strings_Split ''/static'' (CHR ''/'') = [[], ''static'']"
proof -
  have c: "cache example_state = Map.empty" by (simp add: example_state_def)
  have r: "CombinedURL example_state [''a.js/x/..''] =
     ((''/static'', None),
      example_state\<lparr>cache := [''c4ca4238a0'' \<mapsto>
        \<lparr>Content = ''1'', ModTime = 63900000001000000000\<rparr>]\<rparr>)"
    unfolding CombinedURL_def dotdot_loop
    by (simp add: md5_Sum_def md5_1 dotdot_url c)
  have d: "digest_of (concat (file_contents (fileSystem example_state) [''a.js/x/..''])) = ''c4ca4238a0''"
    by (simp add: dotdot_contents digest_of_def md5_1)
  from r d dotdot_contents(2) show ?thesis by simp
qed

end
